theory Spec2Isabelle
  imports Complex_Main "HOL-Library.Word"
begin

section \<open>The vision command group of the SENTIO prober client\<close>

text \<open>
  The theory embeds \<^verbatim>\<open>Sentio/CommandGroups/VisionCommandGroup.py\<close>: every method of
  \<^verbatim>\<open>VisionCommandGroup\<close> that talks to the channel itself becomes a function from
  the state of the world before the call to the outcome of the call (the returned value or
  the exception raised) and the state of the world after it.

  Python strings are modelled as \<^typ>\<open>string\<close>. The remote protocol is ASCII text, and
  the string methods below are the ASCII part of Python's: a character outside ASCII is
  neither whitespace nor a cased letter here.
\<close>

subsection \<open>Exceptions\<close>

datatype error =
    ProberException string  \<comment> \<open>the domain error, with the instrument's message\<close>
  | ValueError              \<comment> \<open>\<^verbatim>\<open>float(s)\<close> on text that is no number\<close>
  | IndexError              \<comment> \<open>\<^verbatim>\<open>tok[i]\<close> with \<^verbatim>\<open>i >= len(tok)\<close>\<close>
  | BinasciiError           \<comment> \<open>\<^verbatim>\<open>base64.b64decode\<close> on a malformed payload\<close>
  | OSError                 \<comment> \<open>\<^verbatim>\<open>open(file, "wb")\<close> fails\<close>
  | NoResponse              \<comment> \<open>\<^verbatim>\<open>read_line\<close> with no line to read\<close>

text \<open>Sequencing of two computations that may raise: the first exception wins.\<close>

definition bind_err :: "error + 'a \<Rightarrow> ('a \<Rightarrow> error + 'b) \<Rightarrow> error + 'b" where
  "bind_err m f = (case m of Inl e \<Rightarrow> Inl e | Inr x \<Rightarrow> f x)"

subsection \<open>Python's string methods\<close>

definition is_space :: "char \<Rightarrow> bool" where
  \<comment> \<open>the ASCII characters \<^verbatim>\<open>str.isspace\<close> accepts: TAB, LF, VT, FF, CR, FS, GS, RS, US, SPACE\<close>
  "is_space c = (let n = (of_char c :: nat) in (9 \<le> n \<and> n \<le> 13) \<or> (28 \<le> n \<and> n \<le> 32))"

definition py_strip :: "string \<Rightarrow> string" where
  \<comment> \<open>\<^verbatim>\<open>s.strip()\<close>\<close>
  "py_strip s = rev (dropWhile is_space (rev (dropWhile is_space s)))"

definition upper_chr :: "char \<Rightarrow> char" where
  "upper_chr c = (let n = (of_char c :: nat) in if 97 \<le> n \<and> n \<le> 122 then char_of (n - 32) else c)"

definition lower_chr :: "char \<Rightarrow> char" where
  "lower_chr c = (let n = (of_char c :: nat) in if 65 \<le> n \<and> n \<le> 90 then char_of (n + 32) else c)"

definition py_upper :: "string \<Rightarrow> string" where
  \<comment> \<open>\<^verbatim>\<open>s.upper()\<close>\<close>
  "py_upper s = map upper_chr s"

definition py_lower :: "string \<Rightarrow> string" where
  \<comment> \<open>\<^verbatim>\<open>s.lower()\<close>\<close>
  "py_lower s = map lower_chr s"

text \<open>
  \<^verbatim>\<open>s.split(sep)\<close> for a separator of one character: the pieces between the
  separators, empty pieces included, so that \<^verbatim>\<open>"".split(",")\<close> is \<^verbatim>\<open>[""]\<close>
  and never the empty list.
\<close>

fun py_split :: "char \<Rightarrow> string \<Rightarrow> string list" where
  "py_split sep [] = [[]]"
| "py_split sep (c # cs) =
     (if c = sep then [] # py_split sep cs
      else (case py_split sep cs of
              [] \<Rightarrow> [[c]]
            | t # ts \<Rightarrow> (c # t) # ts))"

subsection \<open>Python's numbers\<close>

text \<open>
  A Python \<^verbatim>\<open>float\<close> is represented by the number its text denotes: a rational, an
  infinity or not-a-number. Rounding to binary64 is not modelled; no method of the command
  group computes with the numbers it parses. The integer \<^verbatim>\<open>0\<close> that initialises the
  class id in \<^verbatim>\<open>detect_probetips\<close> is represented by \<open>Finite 0\<close>, as Python's
  \<^verbatim>\<open>0 == 0.0\<close> holds.
\<close>

datatype pyfloat = Finite rat | Infinite bool | NaN

definition is_digit :: "char \<Rightarrow> bool" where
  "is_digit c = (let n = (of_char c :: nat) in 48 \<le> n \<and> n \<le> 57)"

definition digit_val :: "char \<Rightarrow> nat" where
  "digit_val c = of_char c - 48"

text \<open>
  A \<^verbatim>\<open>digitpart\<close> of Python's grammar of float texts: digits, with single underscores
  allowed between two digits.
\<close>

fun digitpart_tail :: "string \<Rightarrow> bool" where
  "digitpart_tail [] = True"
| "digitpart_tail [c] = is_digit c"
| "digitpart_tail (c # d # cs) =
     (if c = CHR ''_'' then is_digit d \<and> digitpart_tail (d # cs)
      else is_digit c \<and> digitpart_tail (d # cs))"

definition is_digitpart :: "string \<Rightarrow> bool" where
  "is_digitpart s = (case s of [] \<Rightarrow> False | c # cs \<Rightarrow> is_digit c \<and> digitpart_tail s)"

definition digits_val :: "string \<Rightarrow> nat" where
  "digits_val s = foldl (\<lambda>acc c. 10 * acc + digit_val c) 0 (filter is_digit s)"

definition num_digits :: "string \<Rightarrow> nat" where
  "num_digits s = length (filter is_digit s)"

definition split_sign :: "string \<Rightarrow> bool \<times> string" where
  \<comment> \<open>an optional sign; the flag says that the value is negated\<close>
  "split_sign s =
     (case s of
        [] \<Rightarrow> (False, [])
      | c # cs \<Rightarrow> if c = CHR ''-'' then (True, cs) else if c = CHR ''+'' then (False, cs) else (False, s))"

definition is_exp_chr :: "char \<Rightarrow> bool" where
  "is_exp_chr c = (c = CHR ''e'' \<or> c = CHR ''E'')"

definition parse_number :: "string \<Rightarrow> rat option" where
  \<comment> \<open>\<^verbatim>\<open>number ::= [digitpart] "." digitpart | digitpart ["."]\<close>\<close>
  "parse_number s =
     (let ip = takeWhile (\<lambda>c. c \<noteq> CHR ''.'') s; rest = dropWhile (\<lambda>c. c \<noteq> CHR ''.'') s in
      case rest of
        [] \<Rightarrow> if is_digitpart ip then Some (of_nat (digits_val ip)) else None
      | _ # fp \<Rightarrow>
          if fp = [] then (if is_digitpart ip then Some (of_nat (digits_val ip)) else None)
          else if (ip = [] \<or> is_digitpart ip) \<and> is_digitpart fp
          then Some (of_nat (digits_val ip) + of_nat (digits_val fp) / 10 ^ num_digits fp)
          else None)"

definition parse_exponent :: "string \<Rightarrow> int option" where
  \<comment> \<open>\<^verbatim>\<open>[sign] digitpart\<close>, the text after the exponent letter\<close>
  "parse_exponent s =
     (case split_sign s of
        (neg, ds) \<Rightarrow>
          if is_digitpart ds
          then Some (if neg then - int (digits_val ds) else int (digits_val ds))
          else None)"

definition scale10 :: "rat \<Rightarrow> int \<Rightarrow> rat" where
  "scale10 m e = (if 0 \<le> e then m * 10 ^ nat e else m / 10 ^ nat (- e))"

definition parse_floatnumber :: "string \<Rightarrow> rat option" where
  \<comment> \<open>\<^verbatim>\<open>floatnumber ::= number [exponent]\<close>\<close>
  "parse_floatnumber s =
     (let mant = takeWhile (\<lambda>c. \<not> is_exp_chr c) s; rest = dropWhile (\<lambda>c. \<not> is_exp_chr c) s in
      case parse_number mant of
        None \<Rightarrow> None
      | Some m \<Rightarrow>
          (case rest of
             [] \<Rightarrow> Some m
           | _ # ex \<Rightarrow> (case parse_exponent ex of None \<Rightarrow> None | Some e \<Rightarrow> Some (scale10 m e))))"

definition is_float_space :: "char \<Rightarrow> bool" where
  \<comment> \<open>the characters \<^verbatim>\<open>float\<close> skips around a number: TAB, LF, VT, FF, CR and SPACE;
      the separators FS, GS, RS and US, which \<^verbatim>\<open>str.strip\<close> removes, are not among them\<close>
  "is_float_space c = (let n = (of_char c :: nat) in (9 \<le> n \<and> n \<le> 13) \<or> n = 32)"

definition float_strip :: "string \<Rightarrow> string" where
  "float_strip s = rev (dropWhile is_float_space (rev (dropWhile is_float_space s)))"

definition float_of_str :: "string \<Rightarrow> error + pyfloat" where
  \<comment> \<open>\<^verbatim>\<open>float(s)\<close> for a string: the whitespace \<^verbatim>\<open>float\<close> skips is dropped on both
      sides, then \<^verbatim>\<open>[sign] (floatnumber | "inf" | "infinity" | "nan")\<close>, the words in
      any case\<close>
  "float_of_str s =
     (case split_sign (float_strip s) of
        (neg, body) \<Rightarrow>
          if py_lower body = ''inf'' \<or> py_lower body = ''infinity'' then Inr (Infinite neg)
          else if py_lower body = ''nan'' then Inr NaN
          else (case parse_floatnumber body of
                  None \<Rightarrow> Inl ValueError
                | Some q \<Rightarrow> Inr (Finite (if neg then - q else q))))"

definition is_numeric :: "string \<Rightarrow> bool" where
  \<comment> \<open>the texts \<^verbatim>\<open>float\<close> converts\<close>
  "is_numeric s = (\<not> isl (float_of_str s))"

definition float_at :: "string list \<Rightarrow> nat \<Rightarrow> error + pyfloat" where
  \<comment> \<open>\<^verbatim>\<open>float(tok[i])\<close>: the index is checked first, then the text is converted\<close>
  "float_at tok i = (if i < length tok then float_of_str (tok ! i) else Inl IndexError)"

text \<open>How Python formats a \<^verbatim>\<open>bool\<close> and an \<^verbatim>\<open>int\<close> into a command line.\<close>

definition str_bool :: "bool \<Rightarrow> string" where
  "str_bool b = (if b then ''True'' else ''False'')"

fun str_nat :: "nat \<Rightarrow> string" where
  "str_nat n = (if n < 10 then [char_of (48 + n)] else str_nat (n div 10) @ [char_of (48 + n mod 10)])"

declare str_nat.simps [simp del]

definition str_int :: "int \<Rightarrow> string" where
  "str_int i = (if i < 0 then CHR ''-'' # str_nat (nat (- i)) else str_nat (nat i))"

subsection \<open>Library functions taken as parameters\<close>

type_synonym bytes = "8 word list"

text \<open>
  Two functions of Python's library are parameters of the model, and every theorem below
  holds for all of them: the text Python formats a \<^verbatim>\<open>float\<close> argument into (the
  shortest text that reads back as the same binary64 number), and
  \<^verbatim>\<open>base64.b64decode\<close>, which returns the decoded bytes or raises.
\<close>

record builtins =
  str_float :: "pyfloat \<Rightarrow> string"
  b64decode :: "string \<Rightarrow> error + bytes"

subsection \<open>Enumerations, responses and the channel\<close>

text \<open>
  Modelled from the spec: \<^verbatim>\<open>Sentio/Enumerations.py\<close> is not among the sources. The spec
  says that enumerated values are rendered via each enum's canonical wire-string method.
  A member of an enumeration is its Python name and the text its \<^verbatim>\<open>to_string()\<close>
  returns; the command group compares a member only with \<^verbatim>\<open>AutoAlignCmd.AlignOnly\<close>
  and with \<^verbatim>\<open>SnapshotLocation.Local\<close>, which is a comparison of names.
\<close>

record enum_member =
  member_name :: string
  to_string :: string

text \<open>
  Modelled from the spec: \<^verbatim>\<open>Sentio/Response.py\<close> is not among the sources. The spec
  says that a response line is interpreted as a status and a payload, and that a single
  shared response-check primitive inspects each response's status field and raises a
  domain-specific error, carrying the instrument's message text, when the instrument
  reports failure. A line read from the channel is represented by its interpretation.
\<close>

record response =
  ok :: bool
  message :: string

definition check_resp :: "response \<Rightarrow> error + response" where
  "check_resp resp = (if ok resp then Inr resp else Inl (ProberException (message resp)))"

text \<open>
  The world a call runs in: the response lines the instrument delivers, in the order in
  which \<^verbatim>\<open>read_line\<close> will return them; the log of what happened on the channel; and
  the local file system, with the paths that \<^verbatim>\<open>open(file, "wb")\<close> can open.
\<close>

datatype event = Sent string | Received response

record world =
  pending :: "response list"
  trace :: "event list"
  files :: "string \<Rightarrow> bytes option"
  can_open :: "string \<Rightarrow> bool"

definition send :: "string \<Rightarrow> world \<Rightarrow> world" where
  \<comment> \<open>\<^verbatim>\<open>self.comm.send(line)\<close>\<close>
  "send line w = w\<lparr>trace := trace w @ [Sent line]\<rparr>"

definition read_line :: "world \<Rightarrow> (error + response) \<times> world" where
  \<comment> \<open>\<^verbatim>\<open>self.comm.read_line()\<close>; with no line to read the call does not complete\<close>
  "read_line w =
     (case pending w of
        [] \<Rightarrow> (Inl NoResponse, w)
      | r # rs \<Rightarrow> (Inr r, w\<lparr>pending := rs, trace := trace w @ [Received r]\<rparr>))"

definition exchange :: "string \<Rightarrow> world \<Rightarrow> (error + response) \<times> world" where
  \<comment> \<open>\<^verbatim>\<open>self.comm.send(line); resp = Response.check_resp(self.comm.read_line())\<close>\<close>
  "exchange line w =
     (case read_line (send line w) of (r, w') \<Rightarrow> (bind_err r check_resp, w'))"

definition write_file :: "string \<Rightarrow> bytes \<Rightarrow> world \<Rightarrow> (error + unit) \<times> world" where
  \<comment> \<open>\<^verbatim>\<open>with open(file, "wb") as f: f.write(data)\<close>\<close>
  "write_file path data w =
     (if can_open w path then (Inr (), w\<lparr>files := (files w)(path \<mapsto> data)\<rparr>)
      else (Inl OSError, w))"

definition sent_lines :: "world \<Rightarrow> string list" where
  "sent_lines w = concat (map (\<lambda>e. case e of Sent l \<Rightarrow> [l] | Received _ \<Rightarrow> []) (trace w))"

definition lines_read :: "world \<Rightarrow> response list" where
  "lines_read w = concat (map (\<lambda>e. case e of Sent _ \<Rightarrow> [] | Received r \<Rightarrow> [r]) (trace w))"

subsection \<open>The methods of the command group\<close>

text \<open>
  Each method takes the world and returns the outcome and the world after the call. A
  method that returns nothing returns \<open>()\<close>. Default arguments are passed by the caller.
\<close>

definition align_wafer :: "enum_member \<Rightarrow> world \<Rightarrow> (error + unit) \<times> world" where
  "align_wafer mode w =
     (case (if member_name mode = ''AlignOnly''
            then exchange ''vis:align_wafer'' w
            else exchange (''vis:align_wafer '' @ to_string mode) w) of
        (resp, w') \<Rightarrow> (bind_err resp (\<lambda>_. Inr ()), w'))"

definition align_die :: "builtins \<Rightarrow> pyfloat \<Rightarrow> world \<Rightarrow> (error + pyfloat \<times> pyfloat \<times> pyfloat) \<times> world" where
  "align_die B threshold w =
     (case exchange (''vis:align_die '' @ str_float B threshold) w of
        (resp, w') \<Rightarrow>
          (bind_err resp (\<lambda>resp.
             let tok = py_split (CHR '','') (message resp) in
             bind_err (float_at tok 0) (\<lambda>x.
             bind_err (float_at tok 1) (\<lambda>y.
             bind_err (float_at tok 2) (\<lambda>t. Inr (x, y, t))))), w'))"

definition camera_synchronize :: "world \<Rightarrow> (error + pyfloat \<times> pyfloat \<times> pyfloat) \<times> world" where
  "camera_synchronize w =
     (case exchange ''vis:camera_synchronize'' w of
        (resp, w') \<Rightarrow>
          (bind_err resp (\<lambda>resp.
             let tok = py_split (CHR '','') (message resp) in
             bind_err (float_at tok 0) (\<lambda>x.
             bind_err (float_at tok 1) (\<lambda>y.
             bind_err (float_at tok 2) (\<lambda>t. Inr (x, y, t))))), w'))"

text \<open>
  The body of the loop of \<^verbatim>\<open>detect_probetips\<close> on one record: the entry appended to
  \<^verbatim>\<open>found_tips\<close>, and the value \<^verbatim>\<open>cid\<close> holds afterwards. The variable is
  assigned before the loop and inside it only when the record has a sixth column.
\<close>

definition parse_tip :: "string \<Rightarrow> pyfloat \<Rightarrow> error + (pyfloat list \<times> pyfloat)" where
  "parse_tip s cid =
     (let str_tip = py_split (CHR '' '') (py_strip s); num_col = length str_tip in
      bind_err (float_at str_tip 0) (\<lambda>x.
      bind_err (float_at str_tip 1) (\<lambda>y.
      bind_err (float_at str_tip 2) (\<lambda>w.
      bind_err (float_at str_tip 3) (\<lambda>h.
      bind_err (float_at str_tip 4) (\<lambda>q.
      bind_err (if num_col \<ge> 6 then float_at str_tip 5 else Inr cid) (\<lambda>cid'.
      Inr ([x, y, w, h, q, cid'], cid'))))))))"

fun tips_loop :: "string list \<Rightarrow> pyfloat \<Rightarrow> pyfloat list list \<Rightarrow> error + pyfloat list list" where
  "tips_loop [] cid found_tips = Inr found_tips"
| "tips_loop (s # str_tips) cid found_tips =
     (case parse_tip s cid of
        Inl e \<Rightarrow> Inl e
      | Inr (tip, cid') \<Rightarrow> tips_loop str_tips cid' (found_tips @ [tip]))"

definition detect_probetips ::
  "enum_member \<Rightarrow> enum_member \<Rightarrow> enum_member \<Rightarrow> world \<Rightarrow> (error + pyfloat list list) \<times> world" where
  "detect_probetips camera detector coords w =
     (case exchange (''vis:detect_probetips '' @ to_string camera @ '', '' @ to_string detector
                       @ '', '' @ to_string coords) w of
        (resp, w') \<Rightarrow>
          (bind_err resp (\<lambda>resp.
             let str_tips = py_split (CHR '','') (message resp) in
             tips_loop str_tips (Finite 0) []), w'))"

definition enable_follow_mode :: "bool \<Rightarrow> world \<Rightarrow> (error + unit) \<times> world" where
  "enable_follow_mode stat w =
     (case exchange (''vis:enable_follow_mode '' @ str_bool stat) w of
        (resp, w') \<Rightarrow> (bind_err resp (\<lambda>_. Inr ()), w'))"

definition find_home :: "world \<Rightarrow> (error + unit) \<times> world" where
  "find_home w =
     (case exchange ''vis:find_home'' w of
        (resp, w') \<Rightarrow> (bind_err resp (\<lambda>_. Inr ()), w'))"

definition find_pattern ::
  "builtins \<Rightarrow> string \<Rightarrow> pyfloat \<Rightarrow> int \<Rightarrow> enum_member \<Rightarrow> world
     \<Rightarrow> (error + pyfloat \<times> pyfloat \<times> pyfloat \<times> pyfloat) \<times> world" where
  "find_pattern B name threshold pattern_index reference w =
     (case exchange (''vis:find_pattern '' @ name @ '', '' @ str_float B threshold @ '', ''
                       @ str_int pattern_index @ '', '' @ to_string reference) w of
        (resp, w') \<Rightarrow>
          (bind_err resp (\<lambda>resp.
             let tok = py_split (CHR '','') (message resp) in
             bind_err (float_at tok 0) (\<lambda>a.
             bind_err (float_at tok 1) (\<lambda>b.
             bind_err (float_at tok 2) (\<lambda>c.
             bind_err (float_at tok 3) (\<lambda>d. Inr (a, b, c, d)))))), w'))"

definition has_camera :: "enum_member \<Rightarrow> world \<Rightarrow> (error + bool) \<times> world" where
  "has_camera camera w =
     (case exchange (''vis:has_camera '' @ to_string camera) w of
        (resp, w') \<Rightarrow> (bind_err resp (\<lambda>resp. Inr (py_upper (message resp) = ''1'')), w'))"

definition switch_all_lights :: "bool \<Rightarrow> world \<Rightarrow> (error + unit) \<times> world" where
  "switch_all_lights stat w = (Inr (), send (''vis:switch_all_lights '' @ str_bool stat) w)"

definition remove_probetip_marker :: "world \<Rightarrow> (error + unit) \<times> world" where
  "remove_probetip_marker w =
     (case exchange ''vis:remove_probetip_marker'' w of
        (resp, w') \<Rightarrow> (bind_err resp (\<lambda>_. Inr ()), w'))"

definition match_tips :: "enum_member \<Rightarrow> world \<Rightarrow> (error + pyfloat \<times> pyfloat) \<times> world" where
  "match_tips ptpa_type w =
     (case exchange (''vis:match_tips '' @ to_string ptpa_type) w of
        (resp, w') \<Rightarrow>
          (bind_err resp (\<lambda>resp.
             let tok = py_split (CHR '','') (message resp) in
             bind_err (float_at tok 0) (\<lambda>x.
             bind_err (float_at tok 1) (\<lambda>y. Inr (x, y)))), w'))"

definition snap_image ::
  "builtins \<Rightarrow> string \<Rightarrow> enum_member \<Rightarrow> enum_member \<Rightarrow> world \<Rightarrow> (error + unit) \<times> world" where
  \<comment> \<open>\<open>location\<close> is the argument \<^verbatim>\<open>where\<close>\<close>
  "snap_image B file what location w =
     (if member_name location = ''Local'' then
        (case exchange (''vis:snap_image **download**, '' @ to_string what) w of
           (resp, w') \<Rightarrow>
             (case bind_err resp (\<lambda>resp. b64decode B (message resp)) of
                Inl e \<Rightarrow> (Inl e, w')
              | Inr jpeg_data \<Rightarrow> write_file file jpeg_data w'))
      else
        (case exchange (''vis:snap_image '' @ file @ '', '' @ to_string what) w of
           (resp, w') \<Rightarrow> (bind_err resp (\<lambda>_. Inr ()), w')))"

definition switch_light :: "enum_member \<Rightarrow> bool \<Rightarrow> world \<Rightarrow> (error + unit) \<times> world" where
  "switch_light camera stat w =
     (case exchange (''vis:switch_light '' @ to_string camera @ '', '' @ str_bool stat) w of
        (resp, w') \<Rightarrow> (bind_err resp (\<lambda>_. Inr ()), w'))"

definition switch_camera :: "enum_member \<Rightarrow> world \<Rightarrow> (error + unit) \<times> world" where
  "switch_camera camera w = (Inr (), send (''vis:switch_camera '' @ to_string camera) w)"

definition ptpa_find_pads :: "int \<Rightarrow> int \<Rightarrow> world \<Rightarrow> (error + pyfloat \<times> pyfloat \<times> pyfloat) \<times> world" where
  "ptpa_find_pads row column w =
     (case exchange (''vis:execute_ptpa_find_pads '' @ str_int row @ '','' @ str_int column) w of
        (resp, w') \<Rightarrow>
          (bind_err resp (\<lambda>resp.
             let tok = py_split (CHR '','') (message resp) in
             bind_err (float_at tok 0) (\<lambda>x.
             bind_err (float_at tok 1) (\<lambda>y.
             bind_err (float_at tok 2) (\<lambda>t. Inr (x, y, t))))), w'))"

definition ptpa_find_tips :: "enum_member \<Rightarrow> world \<Rightarrow> (error + pyfloat \<times> pyfloat \<times> pyfloat) \<times> world" where
  "ptpa_find_tips ptpa_mode w =
     (case exchange (''vis:ptpa_find_tips '' @ to_string ptpa_mode) w of
        (resp, w') \<Rightarrow>
          (bind_err resp (\<lambda>resp.
             let tok = py_split (CHR '','') (message resp) in
             bind_err (float_at tok 0) (\<lambda>x.
             bind_err (float_at tok 1) (\<lambda>y.
             bind_err (float_at tok 2) (\<lambda>t. Inr (x, y, t))))), w'))"

text \<open>
  \<^verbatim>\<open>start_execute_compensation\<close> tests \<^verbatim>\<open>resp.ok()\<close> itself, after
  \<^verbatim>\<open>Response.check_resp\<close>. To tell the two checks apart, the method is defined for any
  check \<open>chk\<close> in the place of \<^verbatim>\<open>Response.check_resp\<close>; the method of the command
  group is the one with \<open>check_resp\<close>.
\<close>

definition start_execute_compensation_with ::
  "(response \<Rightarrow> error + response) \<Rightarrow> enum_member \<Rightarrow> enum_member \<Rightarrow> world
     \<Rightarrow> (error + response) \<times> world" where
  "start_execute_compensation_with chk comp_type comp_mode w =
     (case read_line (send (''vis:compensation:start_execute '' @ to_string comp_type @ '',''
                              @ to_string comp_mode) w) of
        (line, w') \<Rightarrow>
          (bind_err (bind_err line chk) (\<lambda>resp.
             if \<not> ok resp then Inl (ProberException (message resp)) else Inr resp), w'))"

definition start_execute_compensation ::
  "enum_member \<Rightarrow> enum_member \<Rightarrow> world \<Rightarrow> (error + response) \<times> world" where
  "start_execute_compensation = start_execute_compensation_with check_resp"

definition find_thermal_die_size :: "world \<Rightarrow> (error + pyfloat \<times> pyfloat) \<times> world" where
  "find_thermal_die_size w =
     (case exchange ''vis:find_thermal_die_size'' w of
        (resp, w') \<Rightarrow>
          (bind_err resp (\<lambda>resp.
             let tok = py_split (CHR '','') (message resp) in
             bind_err (float_at tok 0) (\<lambda>x.
             bind_err (float_at tok 1) (\<lambda>y. Inr (x, y)))), w'))"

definition get_lens_zoom_level :: "world \<Rightarrow> (error + pyfloat) \<times> world" where
  "get_lens_zoom_level w =
     (case exchange ''vis:get_lens_zoom_level'' w of
        (resp, w') \<Rightarrow> (bind_err resp (\<lambda>resp. float_of_str (message resp)), w'))"

definition set_lens_zoom_level :: "builtins \<Rightarrow> pyfloat \<Rightarrow> world \<Rightarrow> (error + unit) \<times> world" where
  "set_lens_zoom_level B level w =
     (case exchange (''vis:set_lens_zoom_level '' @ str_float B level) w of
        (resp, w') \<Rightarrow> (bind_err resp (\<lambda>_. Inr ()), w'))"

definition get_light_status :: "enum_member \<Rightarrow> world \<Rightarrow> (error + bool) \<times> world" where
  "get_light_status camera w =
     (case exchange (''vis:get_light_status '' @ to_string camera) w of
        (resp, w') \<Rightarrow>
          (bind_err resp (\<lambda>resp. Inr (py_lower (py_strip (message resp)) = ''1'')), w'))"

subsection \<open>Every method as one call\<close>

text \<open>
  To state what holds of every method, a call of a method is a value, and \<open>invoke\<close> runs
  it; the value a method returns is wrapped into one type. The two methods
  \<^verbatim>\<open>auto_focus\<close> and \<^verbatim>\<open>start_fast_track\<close> go through \<^verbatim>\<open>prober.send_cmd\<close>, which
  is not among the sources, and are left out.
\<close>

datatype call =
    AlignWafer enum_member
  | AlignDie pyfloat
  | CameraSynchronize
  | DetectProbetips enum_member enum_member enum_member
  | EnableFollowMode bool
  | FindHome
  | FindPattern string pyfloat int enum_member
  | HasCamera enum_member
  | SwitchAllLights bool
  | RemoveProbetipMarker
  | MatchTips enum_member
  | SnapImage string enum_member enum_member
  | SwitchLight enum_member bool
  | SwitchCamera enum_member
  | PtpaFindPads int int
  | PtpaFindTips enum_member
  | StartExecuteCompensation enum_member enum_member
  | FindThermalDieSize
  | GetLensZoomLevel
  | SetLensZoomLevel pyfloat
  | GetLightStatus enum_member

datatype retval =
    RNone
  | RBool bool
  | RFloat pyfloat
  | RTuple "pyfloat list"
  | RList "pyfloat list list"
  | RResponse response

definition returning :: "('a \<Rightarrow> retval) \<Rightarrow> (error + 'a) \<times> world \<Rightarrow> (error + retval) \<times> world" where
  "returning f out = (case out of (r, w) \<Rightarrow> (map_sum id f r, w))"

fun invoke :: "builtins \<Rightarrow> call \<Rightarrow> world \<Rightarrow> (error + retval) \<times> world" where
  "invoke B (AlignWafer mode) w = returning (\<lambda>_. RNone) (align_wafer mode w)"
| "invoke B (AlignDie threshold) w =
     returning (\<lambda>(x, y, t). RTuple [x, y, t]) (align_die B threshold w)"
| "invoke B CameraSynchronize w =
     returning (\<lambda>(x, y, t). RTuple [x, y, t]) (camera_synchronize w)"
| "invoke B (DetectProbetips camera detector coords) w =
     returning RList (detect_probetips camera detector coords w)"
| "invoke B (EnableFollowMode stat) w = returning (\<lambda>_. RNone) (enable_follow_mode stat w)"
| "invoke B FindHome w = returning (\<lambda>_. RNone) (find_home w)"
| "invoke B (FindPattern name threshold pattern_index reference) w =
     returning (\<lambda>(a, b, c, d). RTuple [a, b, c, d])
       (find_pattern B name threshold pattern_index reference w)"
| "invoke B (HasCamera camera) w = returning RBool (has_camera camera w)"
| "invoke B (SwitchAllLights stat) w = returning (\<lambda>_. RNone) (switch_all_lights stat w)"
| "invoke B RemoveProbetipMarker w = returning (\<lambda>_. RNone) (remove_probetip_marker w)"
| "invoke B (MatchTips ptpa_type) w = returning (\<lambda>(x, y). RTuple [x, y]) (match_tips ptpa_type w)"
| "invoke B (SnapImage file what location) w =
     returning (\<lambda>_. RNone) (snap_image B file what location w)"
| "invoke B (SwitchLight camera stat) w = returning (\<lambda>_. RNone) (switch_light camera stat w)"
| "invoke B (SwitchCamera camera) w = returning (\<lambda>_. RNone) (switch_camera camera w)"
| "invoke B (PtpaFindPads row column) w =
     returning (\<lambda>(x, y, t). RTuple [x, y, t]) (ptpa_find_pads row column w)"
| "invoke B (PtpaFindTips ptpa_mode) w =
     returning (\<lambda>(x, y, t). RTuple [x, y, t]) (ptpa_find_tips ptpa_mode w)"
| "invoke B (StartExecuteCompensation comp_type comp_mode) w =
     returning RResponse (start_execute_compensation comp_type comp_mode w)"
| "invoke B FindThermalDieSize w = returning (\<lambda>(x, y). RTuple [x, y]) (find_thermal_die_size w)"
| "invoke B GetLensZoomLevel w = returning RFloat (get_lens_zoom_level w)"
| "invoke B (SetLensZoomLevel level) w = returning (\<lambda>_. RNone) (set_lens_zoom_level B level w)"
| "invoke B (GetLightStatus camera) w = returning RBool (get_light_status camera w)"

fun checks_response :: "call \<Rightarrow> bool" where
  \<comment> \<open>the methods that pass the line they read to \<^verbatim>\<open>Response.check_resp\<close>\<close>
  "checks_response (SwitchAllLights _) = False"
| "checks_response (SwitchCamera _) = False"
| "checks_response _ = True"

subsection \<open>Payloads\<close>

definition single_token :: "string \<Rightarrow> bool" where
  \<comment> \<open>a payload that is one token: not empty, and no whitespace in it\<close>
  "single_token p = (p \<noteq> [] \<and> list_all (\<lambda>c. \<not> is_space c) p)"

definition no_outer_space :: "string \<Rightarrow> bool" where
  \<comment> \<open>a payload without leading or trailing whitespace\<close>
  "no_outer_space p = (p = [] \<or> \<not> (is_space (hd p) \<or> is_space (last p)))"

definition numeric_fields :: "nat \<Rightarrow> string \<Rightarrow> bool" where
  \<comment> \<open>the payload splits on commas into at least \<open>n\<close> fields, the first \<open>n\<close> numeric\<close>
  "numeric_fields n p =
     (let tok = py_split (CHR '','') p in n \<le> length tok \<and> list_all is_numeric (take n tok))"

text \<open>
  The payload shapes of the spec, in the spec's words: a fixed number of comma-separated
  numeric fields (a 3-field comma response, a 4-field numeric response, a 2-field
  response); a comma-separated list of whitespace-separated tip records, each of five
  numeric fields and an optional sixth, the empty response being the empty list; a
  base64-encoded payload for a local snapshot. The tokens of a record are the maximal
  runs of characters that are not whitespace, as \<^verbatim>\<open>s.split()\<close> gives them.
\<close>

definition exactly_fields :: "nat \<Rightarrow> string \<Rightarrow> bool" where
  \<comment> \<open>the payload is \<open>n\<close> comma-separated fields, each numeric\<close>
  "exactly_fields n p =
     (let tok = py_split (CHR '','') p in length tok = n \<and> list_all is_numeric tok)"

fun words_from :: "string \<Rightarrow> string \<Rightarrow> string list" where
  \<comment> \<open>the tokens of the text, \<open>cur\<close> being the token read so far\<close>
  "words_from cur [] = (if cur = [] then [] else [cur])"
| "words_from cur (c # cs) =
     (if is_space c then (if cur = [] then words_from [] cs else cur # words_from [] cs)
      else words_from (cur @ [c]) cs)"

definition py_words :: "string \<Rightarrow> string list" where
  "py_words s = words_from [] s"

definition spec_tip_record :: "string \<Rightarrow> bool" where
  \<comment> \<open>five numeric fields and an optional sixth, separated by whitespace\<close>
  "spec_tip_record s =
     (let t = py_words s in (length t = 5 \<or> length t = 6) \<and> list_all is_numeric t)"

fun spec_well_formed :: "builtins \<Rightarrow> call \<Rightarrow> string \<Rightarrow> bool" where
  \<comment> \<open>the payload has the shape the spec gives for the method; where the spec gives none
      (the methods that return nothing, a response or a truth value) every payload has it\<close>
  "spec_well_formed B (AlignDie _) p = exactly_fields 3 p"
| "spec_well_formed B CameraSynchronize p = exactly_fields 3 p"
| "spec_well_formed B (PtpaFindPads _ _) p = exactly_fields 3 p"
| "spec_well_formed B (PtpaFindTips _) p = exactly_fields 3 p"
| "spec_well_formed B (FindPattern _ _ _ _) p = exactly_fields 4 p"
| "spec_well_formed B (MatchTips _) p = exactly_fields 2 p"
| "spec_well_formed B FindThermalDieSize p = exactly_fields 2 p"
| "spec_well_formed B GetLensZoomLevel p = exactly_fields 1 p"
| "spec_well_formed B (DetectProbetips _ _ _) p =
     (p = [] \<or> list_all spec_tip_record (py_split (CHR '','') p))"
| "spec_well_formed B (SnapImage _ _ location) p =
     (if member_name location = ''Local'' then \<not> isl (b64decode B p) else True)"
| "spec_well_formed B _ p = True"

text \<open>
  What the amended claim asks beyond the shape: the columns of every tip record are
  separated by one space each, and there is a record; the file of a local snapshot can
  be opened for writing.
\<close>

fun join_spaces :: "string list \<Rightarrow> string" where
  "join_spaces [] = []"
| "join_spaces [t] = t"
| "join_spaces (t # u # ts) = t @ CHR '' '' # join_spaces (u # ts)"

definition single_spaced :: "string \<Rightarrow> bool" where
  \<comment> \<open>apart from whitespace around it, the record is its tokens with one space between
      two of them\<close>
  "single_spaced s = (py_strip s = join_spaces (py_words s))"

fun single_spaced_records :: "call \<Rightarrow> string \<Rightarrow> bool" where
  "single_spaced_records (DetectProbetips _ _ _) p =
     (p \<noteq> [] \<and> list_all single_spaced (py_split (CHR '','') p))"
| "single_spaced_records _ p = True"

fun file_ready :: "call \<Rightarrow> world \<Rightarrow> bool" where
  \<comment> \<open>the file a local snapshot is saved to can be opened for writing\<close>
  "file_ready (SnapImage file _ location) w =
     (if member_name location = ''Local'' then can_open w file else True)"
| "file_ready _ w = True"

subsection \<open>Concrete values for the examples\<close>

text \<open>
  A formatter and a decoder to run the model on examples. The formatter writes a number
  positionally, as Python does for the short decimals of the examples; the decoder reads
  the standard base64 alphabet, skips other characters and stops at the padding.
\<close>

fun frac_digits :: "nat \<Rightarrow> rat \<Rightarrow> string" where
  "frac_digits 0 f = []"
| "frac_digits (Suc k) f =
     (let d = nat \<lfloor>10 * f\<rfloor>
      in char_of (48 + d) # (if 10 * f = of_nat d then [] else frac_digits k (10 * f - of_nat d)))"

definition positional :: "pyfloat \<Rightarrow> string" where
  "positional x =
     (case x of
        NaN \<Rightarrow> ''nan''
      | Infinite neg \<Rightarrow> (if neg then ''-inf'' else ''inf'')
      | Finite q \<Rightarrow>
          (let a = \<bar>q\<bar>; n = nat \<lfloor>a\<rfloor>
           in (if q < 0 then ''-'' else [])
                @ str_nat n @ ''.'' @ frac_digits 17 (a - of_nat n)))"

definition b64_index :: "char \<Rightarrow> nat option" where
  "b64_index c =
     (let n = (of_char c :: nat) in
      if 65 \<le> n \<and> n \<le> 90 then Some (n - 65)
      else if 97 \<le> n \<and> n \<le> 122 then Some (n - 71)
      else if 48 \<le> n \<and> n \<le> 57 then Some (n + 4)
      else if c = CHR ''+'' then Some 62
      else if c = CHR ''/'' then Some 63
      else None)"

fun b64_scan :: "string \<Rightarrow> nat \<Rightarrow> nat \<Rightarrow> nat \<Rightarrow> bytes \<Rightarrow> error + bytes" where
  "b64_scan [] quad left pads out = (if quad = 0 then Inr out else Inl BinasciiError)"
| "b64_scan (c # cs) quad left pads out =
     (if c = CHR ''='' then
        (if 2 \<le> quad \<and> 4 \<le> quad + (pads + 1) then Inr out
         else b64_scan cs quad left (pads + 1) out)
      else
        (case b64_index c of
           None \<Rightarrow> b64_scan cs quad left pads out
         | Some v \<Rightarrow>
             if quad = 0 then b64_scan cs 1 v 0 out
             else if quad = 1 then b64_scan cs 2 (v mod 16) 0 (out @ [of_nat (left * 4 + v div 16)])
             else if quad = 2 then b64_scan cs 3 (v mod 4) 0 (out @ [of_nat (left * 16 + v div 4)])
             else b64_scan cs 0 0 0 (out @ [of_nat (left * 64 + v)])))"

definition sample_builtins :: builtins where
  "sample_builtins = \<lparr>str_float = positional, b64decode = (\<lambda>s. b64_scan s 0 0 0 [])\<rparr>"

definition world_of :: "response list \<Rightarrow> (string \<Rightarrow> bool) \<Rightarrow> world" where
  \<comment> \<open>a fresh channel on which the instrument answers \<open>rs\<close>, and an empty file system\<close>
  "world_of rs writable = \<lparr>pending = rs, trace = [], files = (\<lambda>_. None), can_open = writable\<rparr>"

definition success :: "string \<Rightarrow> response" where
  "success p = \<lparr>ok = True, message = p\<rparr>"

definition failure :: "string \<Rightarrow> response" where
  "failure p = \<lparr>ok = False, message = p\<rparr>"

definition mk_member :: "string \<Rightarrow> string \<Rightarrow> enum_member" where
  "mk_member n s = \<lparr>member_name = n, to_string = s\<rparr>"

section \<open>Properties\<close>

subsection \<open>The channel\<close>

lemma exchange_pending:
  "pending w = r # rs \<Longrightarrow>
   exchange l w = (check_resp r, w\<lparr>pending := rs, trace := trace w @ [Sent l, Received r]\<rparr>)"
  by (simp add: exchange_def read_line_def send_def bind_err_def)

lemma exchange_no_line:
  "pending w = [] \<Longrightarrow> exchange l w = (Inl NoResponse, send l w)"
  by (simp add: exchange_def read_line_def send_def bind_err_def)

lemma sent_lines_exchange: "sent_lines (snd (exchange l w)) = sent_lines w @ [l]"
  by (cases "pending w") (simp_all add: exchange_def read_line_def send_def sent_lines_def)

lemma files_exchange: "files (snd (exchange l w)) = files w"
  by (cases "pending w") (simp_all add: exchange_def read_line_def send_def)

lemma can_open_exchange: "can_open (snd (exchange l w)) = can_open w"
  by (cases "pending w") (simp_all add: exchange_def read_line_def send_def)

subsection \<open>Tip detection\<close>

lemma tips_loop_stale:
  "tips_loop (py_split (CHR '','') ''10 20 5 5 0.9 2,10 20 5 5 0.9'') (Finite 0) [] =
   Inr [[Finite 10, Finite 20, Finite 5, Finite 5, Finite (9 / 10), Finite 2],
        [Finite 10, Finite 20, Finite 5, Finite 5, Finite (9 / 10), Finite 2]]"
  by code_simp

lemma tips_loop_empty_payload:
  "tips_loop (py_split (CHR '','') []) (Finite 0) [] = Inl ValueError"
  by code_simp

text \<open>
  Claim C1. A record of exactly five numeric columns is claimed to get the class id 0.0
  whatever records precede it. The method assigns the class id variable once, before
  the loop over the records: a record of five columns that follows a record of six
  columns keeps the class id of that record. For the response
  \<^verbatim>\<open>10 20 5 5 0.9 2,10 20 5 5 0.9\<close> the second entry has class id 2.0.
\<close>

theorem detect_probetips_stale_class_id:
  "fst (detect_probetips camera detector coords
          (w\<lparr>pending := \<lparr>ok = True, message = ''10 20 5 5 0.9 2,10 20 5 5 0.9''\<rparr> # rs\<rparr>)) =
   Inr [[Finite 10, Finite 20, Finite 5, Finite 5, Finite (9 / 10), Finite 2],
        [Finite 10, Finite 20, Finite 5, Finite 5, Finite (9 / 10), Finite 2]]"
  by (simp add: detect_probetips_def exchange_pending check_resp_def bind_err_def tips_loop_stale
           del: py_split.simps tips_loop.simps)

text \<open>
  Claim C2. A success response with an empty payload is claimed to give the empty list.
  Splitting the empty payload on commas gives one empty record, and converting its first
  column raises: the call ends with \<^verbatim>\<open>ValueError\<close>.
\<close>

theorem detect_probetips_empty_payload:
  "fst (detect_probetips camera detector coords
          (w\<lparr>pending := \<lparr>ok = True, message = []\<rparr> # rs\<rparr>)) = Inl ValueError"
  by (simp add: detect_probetips_def exchange_pending check_resp_def bind_err_def
        tips_loop_empty_payload del: py_split.simps tips_loop.simps)

subsection \<open>Sends and reads\<close>

text \<open>
  Claim C3. Every method is claimed to send one line and then read one line, and
  \<^verbatim>\<open>switch_all_lights\<close> and \<^verbatim>\<open>switch_camera\<close> in particular. These two methods send
  their command and return: no line is read, and the instrument's answer stays on the
  channel for the next call to read.
\<close>

theorem switch_methods_read_nothing:
  "pending (snd (switch_all_lights stat w)) = pending w \<and>
   lines_read (snd (switch_all_lights stat w)) = lines_read w \<and>
   sent_lines (snd (switch_all_lights stat w)) =
     sent_lines w @ [''vis:switch_all_lights '' @ str_bool stat] \<and>
   pending (snd (switch_camera camera w)) = pending w \<and>
   lines_read (snd (switch_camera camera w)) = lines_read w \<and>
   sent_lines (snd (switch_camera camera w)) =
     sent_lines w @ [''vis:switch_camera '' @ to_string camera]"
  by (simp add: switch_all_lights_def switch_camera_def send_def lines_read_def sent_lines_def)

subsection \<open>Comparing a payload with the text 1\<close>

lemma char_of_neq_one:
  fixes n :: nat
  assumes "n < 256" "n \<noteq> 49"
  shows "char_of n \<noteq> CHR ''1''"
proof
  assume "char_of n = CHR ''1''"
  then have "(of_char (char_of n) :: nat) = of_char (CHR ''1'')" by simp
  with assms show False by simp
qed

lemma upper_chr_one: "upper_chr c = CHR ''1'' \<longleftrightarrow> c = CHR ''1''"
proof
  assume h: "upper_chr c = CHR ''1''"
  show "c = CHR ''1''"
  proof (cases "97 \<le> (of_char c :: nat) \<and> (of_char c :: nat) \<le> 122")
    case True
    then have "char_of ((of_char c :: nat) - 32) \<noteq> CHR ''1''"
      by (intro char_of_neq_one) auto
    with True h show ?thesis by (simp add: upper_chr_def Let_def)
  next
    case False
    with h show ?thesis by (simp add: upper_chr_def Let_def)
  qed
next
  assume "c = CHR ''1''"
  then show "upper_chr c = CHR ''1''" by (simp add: upper_chr_def Let_def)
qed

lemma lower_chr_one: "lower_chr c = CHR ''1'' \<longleftrightarrow> c = CHR ''1''"
proof
  assume h: "lower_chr c = CHR ''1''"
  show "c = CHR ''1''"
  proof (cases "65 \<le> (of_char c :: nat) \<and> (of_char c :: nat) \<le> 90")
    case True
    then have "char_of ((of_char c :: nat) + 32) \<noteq> CHR ''1''"
      by (intro char_of_neq_one) auto
    with True h show ?thesis by (simp add: lower_chr_def Let_def)
  next
    case False
    with h show ?thesis by (simp add: lower_chr_def Let_def)
  qed
next
  assume "c = CHR ''1''"
  then show "lower_chr c = CHR ''1''" by (simp add: lower_chr_def Let_def)
qed

lemma py_upper_one: "py_upper s = ''1'' \<longleftrightarrow> s = ''1''"
  by (cases s) (auto simp: py_upper_def upper_chr_one)

lemma py_lower_one: "py_lower s = ''1'' \<longleftrightarrow> s = ''1''"
  by (cases s) (auto simp: py_lower_def lower_chr_one)

lemma is_space_one: "\<not> is_space (CHR ''1'')"
  by (simp add: is_space_def)

lemma dropWhile_all: "list_all P xs \<Longrightarrow> dropWhile P (xs @ ys) = dropWhile P ys"
  by (induction xs) auto

lemma py_strip_padded_one:
  assumes "list_all is_space ws1" "list_all is_space ws2"
  shows "py_strip (ws1 @ ''1'' @ ws2) = ''1''"
proof -
  have a: "dropWhile is_space (ws1 @ CHR ''1'' # ws2) = CHR ''1'' # ws2"
    using assms(1) by (simp add: dropWhile_all is_space_one)
  have b: "list_all is_space (rev ws2)" using assms(2) by (simp add: list_all_iff)
  have c: "dropWhile is_space (rev ws2 @ [CHR ''1'']) = [CHR ''1'']"
    using b by (simp add: dropWhile_all is_space_one)
  show ?thesis by (simp add: py_strip_def a c)
qed

lemma py_strip_id:
  assumes "no_outer_space s"
  shows "py_strip s = s"
proof (cases s)
  case Nil
  then show ?thesis by (simp add: py_strip_def)
next
  case (Cons c cs)
  with assms have h: "\<not> is_space (hd s)" and l: "\<not> is_space (last s)"
    by (auto simp: no_outer_space_def)
  have "dropWhile is_space s = s"
    using h by (simp add: dropWhile_eq_self_iff)
  moreover have "dropWhile is_space (rev s) = rev s"
    using l by (simp add: dropWhile_eq_self_iff hd_rev)
  ultimately show ?thesis by (simp add: py_strip_def)
qed

lemma single_token_no_outer_space: "single_token p \<Longrightarrow> no_outer_space p"
  by (cases p) (auto simp: single_token_def no_outer_space_def list_all_iff)

lemma has_camera_result:
  "pending w = r # rs \<Longrightarrow>
   fst (has_camera camera w) = bind_err (check_resp r) (\<lambda>resp. Inr (message resp = ''1''))"
  by (simp add: has_camera_def exchange_pending py_upper_one)

lemma get_light_status_result:
  "pending w = r # rs \<Longrightarrow>
   fst (get_light_status camera w) =
     bind_err (check_resp r) (\<lambda>resp. Inr (py_strip (message resp) = ''1''))"
  by (simp add: get_light_status_def exchange_pending py_lower_one)

text \<open>
  Claim C4. For \<^verbatim>\<open>has_camera\<close> and \<^verbatim>\<open>get_light_status\<close>, and every success response
  whose payload is a single token, the method returns true exactly when the token is
  \<^verbatim>\<open>1\<close>, and false for every other token. The text \<^verbatim>\<open>1\<close> has no cased letter, so
  the comparison after \<^verbatim>\<open>upper()\<close> or \<^verbatim>\<open>lower()\<close> is the comparison of the token itself.
\<close>

theorem boolean_results_single_token:
  assumes "pending w = r # rs" and "ok r" and "single_token (message r)"
  shows "fst (has_camera camera w) = Inr (message r = ''1'') \<and>
         fst (get_light_status camera w) = Inr (message r = ''1'')"
  using assms
  by (simp add: has_camera_result get_light_status_result check_resp_def bind_err_def
        py_strip_id single_token_no_outer_space)

theorem boolean_results_single_token_witness:
  "single_token ''1'' \<and> single_token ''0'' \<and>
   fst (has_camera (mk_member ''Scope'' ''scope'') (world_of [success ''1''] (\<lambda>_. True))) = Inr True \<and>
   fst (get_light_status (mk_member ''Scope'' ''scope'') (world_of [success ''1''] (\<lambda>_. True))) = Inr True \<and>
   fst (has_camera (mk_member ''Scope'' ''scope'') (world_of [success ''0''] (\<lambda>_. True))) = Inr False \<and>
   fst (get_light_status (mk_member ''Scope'' ''scope'') (world_of [success ''0''] (\<lambda>_. True))) = Inr False"
proof -
  have p: "pending (world_of [success s] (\<lambda>_. True)) = success s # []" for s
    by (simp add: world_of_def)
  have o: "ok (success s)" for s by (simp add: success_def)
  have t1: "single_token (message (success ''1''))"
    by (simp add: success_def single_token_def is_space_def)
  have t0: "single_token (message (success ''0''))"
    by (simp add: success_def single_token_def is_space_def)
  show ?thesis
    using boolean_results_single_token [OF p o t1, of "mk_member ''Scope'' ''scope''"]
      boolean_results_single_token [OF p o t0, of "mk_member ''Scope'' ''scope''"] t1 t0
    by (simp add: success_def)
qed

text \<open>
  Claim C10. The two methods disagree on a padded payload: for a success response whose
  payload is the token \<^verbatim>\<open>1\<close> with whitespace before or after it,
  \<^verbatim>\<open>get_light_status\<close> returns true, as it strips the payload, and \<^verbatim>\<open>has_camera\<close>
  returns false, as it does not. On every payload without leading or trailing whitespace
  the two methods have the same outcome.
\<close>

theorem boolean_results_padding:
  assumes "pending w = r # rs"
  shows "(ok r \<and> message r = ws1 @ ''1'' @ ws2 \<and> list_all is_space ws1 \<and> list_all is_space ws2
            \<and> ws1 @ ws2 \<noteq> []
          \<longrightarrow> fst (get_light_status camera w) = Inr True \<and> fst (has_camera camera w) = Inr False)
       \<and> (no_outer_space (message r)
          \<longrightarrow> fst (has_camera camera w) = fst (get_light_status camera w))"
proof (intro conjI impI)
  assume "ok r \<and> message r = ws1 @ ''1'' @ ws2 \<and> list_all is_space ws1 \<and> list_all is_space ws2
            \<and> ws1 @ ws2 \<noteq> []"
  then have h: "ok r" "message r = ws1 @ ''1'' @ ws2" "list_all is_space ws1"
      "list_all is_space ws2" "ws1 @ ws2 \<noteq> []"
    by simp_all
  have ne: "ws1 @ ''1'' @ ws2 \<noteq> ''1''"
    using h(5) by (cases ws1) auto
  show "fst (get_light_status camera w) = Inr True"
    using h assms
    by (simp add: get_light_status_result check_resp_def bind_err_def py_strip_padded_one
          del: append.simps)
  show "fst (has_camera camera w) = Inr False"
    using h assms ne
    by (simp add: has_camera_result check_resp_def bind_err_def del: append.simps)
next
  assume "no_outer_space (message r)"
  then show "fst (has_camera camera w) = fst (get_light_status camera w)"
    using assms
    by (simp add: has_camera_result get_light_status_result check_resp_def bind_err_def
          py_strip_id)
qed

theorem boolean_results_padding_witness:
  "list_all is_space '' '' \<and> list_all is_space [CHR 0x0A] \<and>
   fst (get_light_status (mk_member ''Scope'' ''scope'')
          (world_of [success ('' '' @ ''1'' @ [CHR 0x0A])] (\<lambda>_. True))) = Inr True \<and>
   fst (has_camera (mk_member ''Scope'' ''scope'')
          (world_of [success ('' '' @ ''1'' @ [CHR 0x0A])] (\<lambda>_. True))) = Inr False \<and>
   no_outer_space ''on'' \<and>
   fst (has_camera (mk_member ''Scope'' ''scope'') (world_of [success ''on''] (\<lambda>_. True)))
     = fst (get_light_status (mk_member ''Scope'' ''scope'') (world_of [success ''on''] (\<lambda>_. True)))"
proof -
  have p: "pending (world_of [r] (\<lambda>_. True)) = r # []" for r
    by (simp add: world_of_def)
  have s1: "list_all is_space '' ''" and s2: "list_all is_space [CHR 0x0A]"
    by (simp_all add: is_space_def)
  have n: "no_outer_space ''on''" by (simp add: no_outer_space_def is_space_def)
  show ?thesis
    using boolean_results_padding [OF p, of "success ('' '' @ ''1'' @ [CHR 0x0A])" "'' ''"
        "[CHR 0x0A]" "mk_member ''Scope'' ''scope''"]
      boolean_results_padding [OF p, of "success ''on''" "[]" "[]" "mk_member ''Scope'' ''scope''"]
      s1 s2 n
    by (simp add: success_def)
qed

subsection \<open>Wafer alignment\<close>

text \<open>
  Claim C5. \<^verbatim>\<open>align_wafer\<close> sends exactly one line: the bare command
  \<^verbatim>\<open>vis:align_wafer\<close> when the mode is \<^verbatim>\<open>AlignOnly\<close>, and for every other mode the
  command, a space and the mode's wire string.
\<close>

theorem align_wafer_command:
  "sent_lines (snd (align_wafer mode w)) =
     sent_lines w @ [if member_name mode = ''AlignOnly'' then ''vis:align_wafer''
                     else ''vis:align_wafer '' @ to_string mode]"
  by (simp add: align_wafer_def split_beta sent_lines_exchange)

theorem align_wafer_command_witness:
  "sent_lines (snd (align_wafer (mk_member ''AlignOnly'' ''AlignOnly'')
                      (world_of [success []] (\<lambda>_. True)))) = [''vis:align_wafer''] \<and>
   sent_lines (snd (align_wafer (mk_member ''AutoDieSize'' ''AutoDieSize'')
                      (world_of [success []] (\<lambda>_. True)))) = [''vis:align_wafer AutoDieSize'']"
  using align_wafer_command [of "mk_member ''AlignOnly'' ''AlignOnly''"
      "world_of [success []] (\<lambda>_. True)"]
    align_wafer_command [of "mk_member ''AutoDieSize'' ''AutoDieSize''"
      "world_of [success []] (\<lambda>_. True)"]
  by (simp add: mk_member_def world_of_def sent_lines_def)

subsection \<open>Die alignment\<close>

lemma float_of_str_error: "float_of_str s = Inl e \<Longrightarrow> e = ValueError"
  by (auto simp: float_of_str_def split: prod.splits if_splits option.splits)

lemma float_at_error: "float_at tok i = Inl e \<Longrightarrow> e = ValueError \<or> e = IndexError"
  by (auto simp: float_at_def dest: float_of_str_error split: if_splits)

lemma float_at_Inr: "float_at tok i = Inr x \<Longrightarrow> i < length tok \<and> is_numeric (tok ! i)"
  by (auto simp: float_at_def is_numeric_def split: if_splits)

lemma is_numeric_Inr: "is_numeric s \<Longrightarrow> \<exists>x. float_of_str s = Inr x"
  by (cases "float_of_str s") (simp_all add: is_numeric_def)

lemma numeric_fields_float_at:
  assumes "numeric_fields n p" and "i < n"
  shows "\<exists>x. float_at (py_split (CHR '','') p) i = Inr x"
proof -
  let ?tok = "py_split (CHR '','') p"
  from assms have len: "i < length ?tok" and all: "list_all is_numeric (take n ?tok)"
    by (simp_all add: numeric_fields_def Let_def)
  from all assms(2) len have "is_numeric (take n ?tok ! i)"
    by (simp add: list_all_length del: nth_take)
  with assms(2) have "is_numeric (?tok ! i)" by simp
  with len show ?thesis by (simp add: float_at_def is_numeric_Inr)
qed

lemma numeric_fields_3I:
  assumes "float_at (py_split (CHR '','') p) 0 = Inr x"
    and "float_at (py_split (CHR '','') p) 1 = Inr y"
    and "float_at (py_split (CHR '','') p) 2 = Inr t"
  shows "numeric_fields 3 p"
proof -
  let ?tok = "py_split (CHR '','') p"
  from assms have a: "2 < length ?tok" "is_numeric (?tok ! 0)" "is_numeric (?tok ! 1)"
    "is_numeric (?tok ! 2)"
    by (auto dest: float_at_Inr)
  have "is_numeric (?tok ! i)" if "i < 3" for i
  proof -
    from that have "i = 0 \<or> i = 1 \<or> i = 2" by arith
    with a show ?thesis by auto
  qed
  with a(1) show ?thesis
    by (simp add: numeric_fields_def Let_def list_all_length)
qed

lemma align_die_result:
  "pending w = r # rs \<Longrightarrow> ok r \<Longrightarrow>
   fst (align_die B threshold w) =
     (let tok = py_split (CHR '','') (message r) in
      bind_err (float_at tok 0) (\<lambda>x.
      bind_err (float_at tok 1) (\<lambda>y.
      bind_err (float_at tok 2) (\<lambda>t. Inr (x, y, t)))))"
  by (simp add: align_die_def exchange_pending check_resp_def bind_err_def)

lemma example_fields: "py_split (CHR '','') ''1.0,2.0,3.0'' = [''1.0'', ''2.0'', ''3.0'']"
  by code_simp

lemma example_floats:
  "float_of_str ''1.0'' = Inr (Finite 1)" "float_of_str ''2.0'' = Inr (Finite 2)"
  "float_of_str ''3.0'' = Inr (Finite 3)"
  by code_simp+

text \<open>
  Claim C7. For a success response, \<^verbatim>\<open>align_die\<close> returns the first three
  comma-separated fields of the payload converted to floats when there are at least three
  fields and the first three are numeric; the payload \<^verbatim>\<open>1.0,2.0,3.0\<close> gives
  (1.0, 2.0, 3.0); and the call fails, with \<^verbatim>\<open>ValueError\<close> or \<^verbatim>\<open>IndexError\<close>, when
  the payload does not split into at least three fields with the first three numeric.
  A field is numeric when \<^verbatim>\<open>float\<close> converts it: a field that starts with the
  separator FS, as the last payload of the witness does, is not.
\<close>

theorem align_die_three_fields:
  assumes "pending w = r # rs" and "ok r"
  shows "(3 \<le> length (py_split (CHR '','') (message r))
            \<and> float_of_str (py_split (CHR '','') (message r) ! 0) = Inr x
            \<and> float_of_str (py_split (CHR '','') (message r) ! 1) = Inr y
            \<and> float_of_str (py_split (CHR '','') (message r) ! 2) = Inr t
          \<longrightarrow> fst (align_die B threshold w) = Inr (x, y, t))
       \<and> (message r = ''1.0,2.0,3.0''
          \<longrightarrow> fst (align_die B threshold w) = Inr (Finite 1, Finite 2, Finite 3))
       \<and> (\<not> numeric_fields 3 (message r)
          \<longrightarrow> fst (align_die B threshold w) = Inl ValueError
              \<or> fst (align_die B threshold w) = Inl IndexError)"
proof (intro conjI impI)
  let ?tok = "py_split (CHR '','') (message r)"
  assume "3 \<le> length ?tok \<and> float_of_str (?tok ! 0) = Inr x \<and> float_of_str (?tok ! 1) = Inr y
            \<and> float_of_str (?tok ! 2) = Inr t"
  then have "float_at ?tok 0 = Inr x" "float_at ?tok 1 = Inr y" "float_at ?tok 2 = Inr t"
    by (auto simp: float_at_def)
  then show "fst (align_die B threshold w) = Inr (x, y, t)"
    using assms by (simp add: align_die_result bind_err_def Let_def)
next
  assume "message r = ''1.0,2.0,3.0''"
  then show "fst (align_die B threshold w) = Inr (Finite 1, Finite 2, Finite 3)"
    using assms
    by (simp add: align_die_result example_fields float_at_def example_floats bind_err_def
          del: py_split.simps)
next
  let ?tok = "py_split (CHR '','') (message r)"
  assume bad: "\<not> numeric_fields 3 (message r)"
  show "fst (align_die B threshold w) = Inl ValueError
          \<or> fst (align_die B threshold w) = Inl IndexError"
  proof (cases "float_at ?tok 0")
    case (Inl e)
    with assms float_at_error[OF Inl] show ?thesis
      by (auto simp: align_die_result bind_err_def Let_def)
  next
    case x: (Inr x)
    show ?thesis
    proof (cases "float_at ?tok 1")
      case (Inl e)
      with assms x float_at_error[OF Inl] show ?thesis
        by (auto simp: align_die_result bind_err_def Let_def)
    next
      case y: (Inr y)
      show ?thesis
      proof (cases "float_at ?tok 2")
        case (Inl e)
        with assms x y float_at_error[OF Inl] show ?thesis
          by (auto simp: align_die_result bind_err_def Let_def)
      next
        case (Inr t)
        with x y have "numeric_fields 3 (message r)" by (rule numeric_fields_3I)
        with bad show ?thesis by simp
      qed
    qed
  qed
qed

theorem align_die_three_fields_witness:
  "numeric_fields 3 ''1.0,2.0,3.0'' \<and>
   fst (align_die sample_builtins (Finite (1 / 20)) (world_of [success ''1.0,2.0,3.0''] (\<lambda>_. True)))
     = Inr (Finite 1, Finite 2, Finite 3) \<and>
   \<not> numeric_fields 3 ''1.0,2.0'' \<and>
   fst (align_die sample_builtins (Finite (1 / 20)) (world_of [success ''1.0,2.0''] (\<lambda>_. True)))
     = Inl IndexError \<and>
   \<not> numeric_fields 3 ''1.0,abc,3.0'' \<and>
   fst (align_die sample_builtins (Finite (1 / 20)) (world_of [success ''1.0,abc,3.0''] (\<lambda>_. True)))
     = Inl ValueError \<and>
   \<not> numeric_fields 3 (CHR 0x1C # ''1,2,3'') \<and>
   fst (align_die sample_builtins (Finite (1 / 20))
          (world_of [success (CHR 0x1C # ''1,2,3'')] (\<lambda>_. True)))
     = Inl ValueError"
proof -
  have p: "pending (world_of [r] (\<lambda>_. True)) = r # []" for r
    by (simp add: world_of_def)
  have o: "ok (success s)" for s by (simp add: success_def)
  have n1: "numeric_fields 3 ''1.0,2.0,3.0''" by code_simp
  have n2: "\<not> numeric_fields 3 ''1.0,2.0''" by code_simp
  have n3: "\<not> numeric_fields 3 ''1.0,abc,3.0''" by code_simp
  have n4: "\<not> numeric_fields 3 (CHR 0x1C # ''1,2,3'')" by code_simp
  have e2: "fst (align_die sample_builtins (Finite (1 / 20)) (world_of [success ''1.0,2.0''] (\<lambda>_. True)))
     \<noteq> Inl ValueError"
    by code_simp
  have e3: "fst (align_die sample_builtins (Finite (1 / 20)) (world_of [success ''1.0,abc,3.0''] (\<lambda>_. True)))
     \<noteq> Inl IndexError"
    by code_simp
  have e4: "fst (align_die sample_builtins (Finite (1 / 20))
          (world_of [success (CHR 0x1C # ''1,2,3'')] (\<lambda>_. True))) \<noteq> Inl IndexError"
    by code_simp
  show ?thesis
    using align_die_three_fields [OF p o, of "''1.0,2.0,3.0''" "Finite 1" "Finite 2" "Finite 3"
        sample_builtins "Finite (1 / 20)"]
      align_die_three_fields [OF p o, of "''1.0,2.0''" "Finite 1" "Finite 2" "Finite 3"
        sample_builtins "Finite (1 / 20)"]
      align_die_three_fields [OF p o, of "''1.0,abc,3.0''" "Finite 1" "Finite 2" "Finite 3"
        sample_builtins "Finite (1 / 20)"]
      align_die_three_fields [OF p o, of "CHR 0x1C # ''1,2,3''" "Finite 1" "Finite 2" "Finite 3"
        sample_builtins "Finite (1 / 20)"]
      n1 n2 n3 n4 e2 e3 e4
    by (simp add: success_def del: py_split.simps)
qed

subsection \<open>The obsolete compensation method\<close>

lemma start_execute_compensation_with_result:
  "pending w = r # rs \<Longrightarrow>
   fst (start_execute_compensation_with chk comp_type comp_mode w) =
     bind_err (chk r) (\<lambda>resp.
       if \<not> ok resp then Inl (ProberException (message resp)) else Inr resp)"
  by (simp add: start_execute_compensation_with_def read_line_def send_def bind_err_def)

text \<open>
  Claim C8. \<^verbatim>\<open>start_execute_compensation\<close> raises \<^verbatim>\<open>ProberException\<close> with the
  instrument's message when the response reports failure, and returns the response
  when it reports success. The method makes its own test of \<^verbatim>\<open>resp.ok()\<close> after the
  shared check: whatever check \<open>chk\<close> stands in the place of \<^verbatim>\<open>Response.check_resp\<close>,
  a response that the check lets through is returned only when it reports success, and
  raises \<^verbatim>\<open>ProberException\<close> with its message otherwise; an exception of the check
  itself propagates.
\<close>

theorem start_execute_compensation_outcome:
  assumes "pending w = r # rs"
  shows "fst (start_execute_compensation comp_type comp_mode w) =
           (if ok r then Inr r else Inl (ProberException (message r)))
       \<and> (chk r = Inr r' \<longrightarrow>
            fst (start_execute_compensation_with chk comp_type comp_mode w) =
              (if ok r' then Inr r' else Inl (ProberException (message r'))))
       \<and> (chk r = Inl e \<longrightarrow>
            fst (start_execute_compensation_with chk comp_type comp_mode w) = Inl e)"
  using assms
  by (simp add: start_execute_compensation_def start_execute_compensation_with_result
        check_resp_def bind_err_def)

theorem start_execute_compensation_outcome_witness:
  "fst (start_execute_compensation (mk_member ''DieAlign'' ''DieAlign'') (mk_member ''Lateral'' ''Lateral'')
          (world_of [failure ''no pattern trained''] (\<lambda>_. True)))
     = Inl (ProberException ''no pattern trained'') \<and>
   fst (start_execute_compensation (mk_member ''DieAlign'' ''DieAlign'') (mk_member ''Lateral'' ''Lateral'')
          (world_of [success ''started''] (\<lambda>_. True)))
     = Inr (success ''started'') \<and>
   fst (start_execute_compensation_with Inr (mk_member ''DieAlign'' ''DieAlign'')
          (mk_member ''Lateral'' ''Lateral'') (world_of [failure ''no pattern trained''] (\<lambda>_. True)))
     = Inl (ProberException ''no pattern trained'') \<and>
   fst (start_execute_compensation_with (\<lambda>_. Inl NoResponse) (mk_member ''DieAlign'' ''DieAlign'')
          (mk_member ''Lateral'' ''Lateral'') (world_of [success ''started''] (\<lambda>_. True)))
     = Inl NoResponse"
proof -
  have p: "pending (world_of [r] (\<lambda>_. True)) = r # []" for r
    by (simp add: world_of_def)
  show ?thesis
    using start_execute_compensation_outcome [OF p, where r = "failure ''no pattern trained''"
        and chk = Inr and r' = "failure ''no pattern trained''" and e = NoResponse
        and comp_type = "mk_member ''DieAlign'' ''DieAlign''"
        and comp_mode = "mk_member ''Lateral'' ''Lateral''"]
      start_execute_compensation_outcome [OF p, where r = "success ''started''"
        and chk = "\<lambda>_. Inl NoResponse" and r' = "success ''started''" and e = NoResponse
        and comp_type = "mk_member ''DieAlign'' ''DieAlign''"
        and comp_mode = "mk_member ''Lateral'' ''Lateral''"]
    by (simp add: success_def failure_def)
qed

subsection \<open>Snapshots\<close>

lemma sent_lines_write_file: "sent_lines (snd (write_file path data w)) = sent_lines w"
  by (simp add: write_file_def sent_lines_def)

lemma snap_image_local_sent:
  assumes "member_name location = ''Local''"
  shows "sent_lines (snd (snap_image B file what location w)) =
           sent_lines w @ [''vis:snap_image **download**, '' @ to_string what]"
proof -
  obtain resp w' where e: "exchange (''vis:snap_image **download**, '' @ to_string what) w = (resp, w')"
    by (cases "exchange (''vis:snap_image **download**, '' @ to_string what) w")
  have "sent_lines w' = sent_lines w @ [''vis:snap_image **download**, '' @ to_string what]"
    using sent_lines_exchange [of "''vis:snap_image **download**, '' @ to_string what" w] e by simp
  then show ?thesis
    using assms e
    by (simp add: snap_image_def sent_lines_write_file split: sum.splits)
qed

lemma snap_image_local_written:
  assumes "member_name location = ''Local''" and "pending w = r # rs" and "ok r"
    and "b64decode B (message r) = Inr data" and "can_open w file"
  shows "fst (snap_image B file what location w) = Inr ()"
    and "files (snd (snap_image B file what location w)) = (files w)(file \<mapsto> data)"
  using assms
  by (simp_all add: snap_image_def exchange_pending check_resp_def bind_err_def write_file_def)

lemma snap_image_local_returns:
  assumes "member_name location = ''Local''"
    and "fst (snap_image B file what location w) = Inr ()"
  shows "\<exists>r rs data. pending w = r # rs \<and> ok r \<and> b64decode B (message r) = Inr data
           \<and> can_open w file
           \<and> files (snd (snap_image B file what location w)) = (files w)(file \<mapsto> data)"
proof (cases "pending w")
  case Nil
  with assms show ?thesis
    by (simp add: snap_image_def exchange_no_line bind_err_def)
next
  case (Cons r rs)
  with assms show ?thesis
    by (cases "b64decode B (message r)")
       (auto simp: snap_image_def exchange_pending check_resp_def bind_err_def write_file_def
             split: if_splits)
qed

lemma snap_image_remote:
  assumes "member_name location \<noteq> ''Local''"
  shows "sent_lines (snd (snap_image B file what location w)) =
           sent_lines w @ [''vis:snap_image '' @ file @ '', '' @ to_string what]"
    and "files (snd (snap_image B file what location w)) = files w"
  using assms
  by (simp_all add: snap_image_def split_beta sent_lines_exchange files_exchange)

text \<open>
  Claim C6. With the location \<^verbatim>\<open>Local\<close>, \<^verbatim>\<open>snap_image\<close> sends the command that asks
  for the image inline; for a success response whose payload decodes, and a file that can
  be opened, the call returns and the file holds exactly the decoded bytes, no other file
  changes; and whenever the call returns, the file holds the decoded payload of a success
  response. With any other location the command carries the file name, and no file
  changes whatever the response.
\<close>

theorem snap_image_local_and_remote:
  "(member_name location = ''Local'' \<longrightarrow>
      sent_lines (snd (snap_image B file what location w)) =
        sent_lines w @ [''vis:snap_image **download**, '' @ to_string what]
      \<and> (pending w = r # rs \<and> ok r \<and> b64decode B (message r) = Inr data \<and> can_open w file
         \<longrightarrow> fst (snap_image B file what location w) = Inr ()
             \<and> files (snd (snap_image B file what location w)) = (files w)(file \<mapsto> data))
      \<and> (fst (snap_image B file what location w) = Inr ()
         \<longrightarrow> (\<exists>r' rs' data'. pending w = r' # rs' \<and> ok r' \<and> b64decode B (message r') = Inr data'
               \<and> files (snd (snap_image B file what location w)) = (files w)(file \<mapsto> data'))))
   \<and> (member_name location \<noteq> ''Local'' \<longrightarrow>
      sent_lines (snd (snap_image B file what location w)) =
        sent_lines w @ [''vis:snap_image '' @ file @ '', '' @ to_string what]
      \<and> files (snd (snap_image B file what location w)) = files w)"
proof (intro conjI impI)
  assume "member_name location = ''Local''"
  then show "sent_lines (snd (snap_image B file what location w)) =
        sent_lines w @ [''vis:snap_image **download**, '' @ to_string what]"
    by (rule snap_image_local_sent)
next
  assume l: "member_name location = ''Local''"
    and h: "pending w = r # rs \<and> ok r \<and> b64decode B (message r) = Inr data \<and> can_open w file"
  from h show "fst (snap_image B file what location w) = Inr ()"
    using snap_image_local_written(1) [OF l] by blast
  from h show "files (snd (snap_image B file what location w)) = (files w)(file \<mapsto> data)"
    using snap_image_local_written(2) [OF l] by blast
next
  assume "member_name location = ''Local''"
    and "fst (snap_image B file what location w) = Inr ()"
  then show "\<exists>r' rs' data'. pending w = r' # rs' \<and> ok r' \<and> b64decode B (message r') = Inr data'
               \<and> files (snd (snap_image B file what location w)) = (files w)(file \<mapsto> data')"
    using snap_image_local_returns by blast
next
  assume r: "member_name location \<noteq> ''Local''"
  show "sent_lines (snd (snap_image B file what location w)) =
        sent_lines w @ [''vis:snap_image '' @ file @ '', '' @ to_string what]"
    by (rule snap_image_remote(1) [OF r])
  show "files (snd (snap_image B file what location w)) = files w"
    by (rule snap_image_remote(2) [OF r])
qed

lemma sample_decode: "b64decode sample_builtins ''aGk='' = Inr [104, 105]"
  by code_simp

theorem snap_image_local_and_remote_witness:
  "b64decode sample_builtins ''aGk='' = Inr [104, 105] \<and>
   sent_lines (snd (snap_image sample_builtins ''tips.jpg'' (mk_member ''CameraRaw'' ''raw'')
       (mk_member ''Local'' ''local'') (world_of [success ''aGk=''] (\<lambda>_. True))))
     = [''vis:snap_image **download**, raw''] \<and>
   fst (snap_image sample_builtins ''tips.jpg'' (mk_member ''CameraRaw'' ''raw'')
       (mk_member ''Local'' ''local'') (world_of [success ''aGk=''] (\<lambda>_. True))) = Inr () \<and>
   files (snd (snap_image sample_builtins ''tips.jpg'' (mk_member ''CameraRaw'' ''raw'')
       (mk_member ''Local'' ''local'') (world_of [success ''aGk=''] (\<lambda>_. True)))) ''tips.jpg''
     = Some [104, 105] \<and>
   sent_lines (snd (snap_image sample_builtins ''tips.jpg'' (mk_member ''CameraRaw'' ''raw'')
       (mk_member ''Prober'' ''prober'') (world_of [success []] (\<lambda>_. True))))
     = [''vis:snap_image tips.jpg, raw''] \<and>
   files (snd (snap_image sample_builtins ''tips.jpg'' (mk_member ''CameraRaw'' ''raw'')
       (mk_member ''Prober'' ''prober'') (world_of [success []] (\<lambda>_. True)))) ''tips.jpg'' = None"
  using snap_image_local_and_remote [of "mk_member ''Local'' ''local''" sample_builtins "''tips.jpg''"
      "mk_member ''CameraRaw'' ''raw''" "world_of [success ''aGk=''] (\<lambda>_. True)"
      "success ''aGk=''" "[]" "[104, 105]"]
    snap_image_local_and_remote [of "mk_member ''Prober'' ''prober''" sample_builtins "''tips.jpg''"
      "mk_member ''CameraRaw'' ''raw''" "world_of [success []] (\<lambda>_. True)"
      "success []" "[]" "[]"]
    sample_decode
  by (simp add: mk_member_def world_of_def success_def sent_lines_def)

subsection \<open>Every method that checks its response\<close>

lemmas method_defs =
  align_wafer_def align_die_def camera_synchronize_def detect_probetips_def
  enable_follow_mode_def find_home_def find_pattern_def has_camera_def
  remove_probetip_marker_def match_tips_def snap_image_def switch_light_def
  ptpa_find_pads_def ptpa_find_tips_def start_execute_compensation_def
  start_execute_compensation_with_def find_thermal_die_size_def get_lens_zoom_level_def
  set_lens_zoom_level_def get_light_status_def

lemma invoke_failure:
  assumes "checks_response c" and "pending w = r # rs" and "\<not> ok r"
  shows "fst (invoke B c w) = Inl (ProberException (message r))"
  using assms
  by (cases c)
     (simp_all add: method_defs returning_def exchange_pending read_line_def send_def
        check_resp_def bind_err_def)

lemma exactly_fields_numeric: "exactly_fields n p \<Longrightarrow> numeric_fields n p"
  by (simp add: exactly_fields_def numeric_fields_def Let_def)

lemma numeric_prefix_float_at:
  assumes "list_all is_numeric tok" and "i < length tok"
  shows "\<exists>x. float_at tok i = Inr x"
  using assms by (simp add: list_all_length float_at_def is_numeric_Inr)

text \<open>Columns separated by one space each are the tokens of the record.\<close>

lemma py_split_no_sep: "sep \<notin> set t \<Longrightarrow> py_split sep t = [t]"
  by (induction t) auto

lemma py_split_append_sep:
  "sep \<notin> set t \<Longrightarrow> py_split sep (t @ sep # rest) = t # py_split sep rest"
  by (induction t) auto

lemma py_split_join_spaces:
  "ts \<noteq> [] \<Longrightarrow> \<forall>t\<in>set ts. CHR '' '' \<notin> set t \<Longrightarrow>
   py_split (CHR '' '') (join_spaces ts) = ts"
proof (induction ts rule: join_spaces.induct)
  case 1
  then show ?case by simp
next
  case (2 t)
  then show ?case by (simp add: py_split_no_sep del: py_split.simps)
next
  case (3 t u ts)
  then show ?case by (simp add: py_split_append_sep del: py_split.simps)
qed

lemma words_from_tokens:
  "\<forall>c\<in>set cur. \<not> is_space c \<Longrightarrow> t \<in> set (words_from cur s) \<Longrightarrow> \<forall>c\<in>set t. \<not> is_space c"
proof (induction s arbitrary: cur)
  case Nil
  then show ?case by (auto split: if_splits)
next
  case (Cons a s)
  show ?case
  proof (cases "is_space a")
    case True
    with Cons.prems have "t = cur \<or> t \<in> set (words_from [] s)"
      by (auto split: if_splits)
    then show ?thesis
      using Cons.prems(1) Cons.IH [of "[]"] by auto
  next
    case False
    with Cons.prems have "t \<in> set (words_from (cur @ [a]) s)" by simp
    moreover have "\<forall>c\<in>set (cur @ [a]). \<not> is_space c"
      using Cons.prems(1) False by simp
    ultimately show ?thesis using Cons.IH [of "cur @ [a]"] by blast
  qed
qed

lemma py_words_no_space: "t \<in> set (py_words s) \<Longrightarrow> CHR '' '' \<notin> set t"
proof
  assume t: "t \<in> set (py_words s)" and sp: "CHR '' '' \<in> set t"
  have "\<forall>c\<in>set t. \<not> is_space c"
    using words_from_tokens [of "[]" t s] t by (simp add: py_words_def)
  with sp have "\<not> is_space (CHR '' '')" by blast
  then show False by (simp add: is_space_def)
qed

lemma single_spaced_columns:
  assumes "spec_tip_record s" and "single_spaced s"
  shows "py_split (CHR '' '') (py_strip s) = py_words s"
proof -
  from assms(1) have "py_words s \<noteq> []"
    by (auto simp: spec_tip_record_def Let_def)
  then have "py_split (CHR '' '') (join_spaces (py_words s)) = py_words s"
    by (intro py_split_join_spaces) (auto dest: py_words_no_space)
  with assms(2) show ?thesis by (simp add: single_spaced_def)
qed

lemma parse_tip_ok:
  assumes "spec_tip_record s" and "single_spaced s"
  shows "\<exists>tip cid'. parse_tip s cid = Inr (tip, cid')"
proof -
  let ?t = "py_words s"
  have cols: "py_split (CHR '' '') (py_strip s) = ?t"
    using assms by (rule single_spaced_columns)
  from assms(1) have len: "length ?t = 5 \<or> length ?t = 6" and num: "list_all is_numeric ?t"
    by (simp_all add: spec_tip_record_def Let_def)
  have f: "\<exists>x. float_at ?t i = Inr x" if "i < length ?t" for i
    using numeric_prefix_float_at [OF num that] .
  from len have l: "0 < length ?t" "1 < length ?t" "2 < length ?t" "3 < length ?t"
      "4 < length ?t"
    by auto
  obtain x where x: "float_at ?t 0 = Inr x" using f [OF l(1)] by blast
  obtain y where y: "float_at ?t 1 = Inr y" using f [OF l(2)] by blast
  obtain w where w: "float_at ?t 2 = Inr w" using f [OF l(3)] by blast
  obtain h where h: "float_at ?t 3 = Inr h" using f [OF l(4)] by blast
  obtain q where q: "float_at ?t 4 = Inr q" using f [OF l(5)] by blast
  show ?thesis
  proof (cases "6 \<le> length ?t")
    case True
    then have "5 < length ?t" by simp
    then obtain k where "float_at ?t 5 = Inr k" using f [of 5] by blast
    with True x y w h q show ?thesis
      by (simp add: parse_tip_def cols Let_def bind_err_def)
  next
    case False
    with x y w h q show ?thesis
      by (simp add: parse_tip_def cols Let_def bind_err_def)
  qed
qed

lemma tips_loop_ok:
  "list_all spec_tip_record ss \<Longrightarrow> list_all single_spaced ss \<Longrightarrow>
   \<exists>out. tips_loop ss cid found = Inr out"
proof (induction ss arbitrary: cid found)
  case Nil
  then show ?case by simp
next
  case (Cons s ss)
  then have "spec_tip_record s" "single_spaced s"
    and rest: "list_all spec_tip_record ss" "list_all single_spaced ss"
    by simp_all
  then obtain tip cid' where "parse_tip s cid = Inr (tip, cid')"
    using parse_tip_ok by blast
  then show ?case
    using Cons.IH [OF rest, of cid' "found @ [tip]"] by simp
qed

lemma three_floats_ok:
  assumes "exactly_fields 3 p"
  shows "\<exists>v. bind_err (float_at (py_split (CHR '','') p) 0) (\<lambda>x.
              bind_err (float_at (py_split (CHR '','') p) 1) (\<lambda>y.
              bind_err (float_at (py_split (CHR '','') p) 2) (\<lambda>t. Inr (x, y, t)))) = Inr v"
proof -
  note n = exactly_fields_numeric [OF assms]
  obtain x where x: "float_at (py_split (CHR '','') p) 0 = Inr x"
    using numeric_fields_float_at [OF n, of 0] by auto
  obtain y where y: "float_at (py_split (CHR '','') p) 1 = Inr y"
    using numeric_fields_float_at [OF n, of 1] by auto
  obtain t where t: "float_at (py_split (CHR '','') p) 2 = Inr t"
    using numeric_fields_float_at [OF n, of 2] by auto
  from x y t show ?thesis by (simp add: bind_err_def)
qed

lemma two_floats_ok:
  assumes "exactly_fields 2 p"
  shows "\<exists>v. bind_err (float_at (py_split (CHR '','') p) 0) (\<lambda>x.
              bind_err (float_at (py_split (CHR '','') p) 1) (\<lambda>y. Inr (x, y))) = Inr v"
proof -
  note n = exactly_fields_numeric [OF assms]
  obtain x where x: "float_at (py_split (CHR '','') p) 0 = Inr x"
    using numeric_fields_float_at [OF n, of 0] by auto
  obtain y where y: "float_at (py_split (CHR '','') p) 1 = Inr y"
    using numeric_fields_float_at [OF n, of 1] by auto
  from x y show ?thesis by (simp add: bind_err_def)
qed

lemma four_floats_ok:
  assumes "exactly_fields 4 p"
  shows "\<exists>v. bind_err (float_at (py_split (CHR '','') p) 0) (\<lambda>a.
              bind_err (float_at (py_split (CHR '','') p) 1) (\<lambda>b.
              bind_err (float_at (py_split (CHR '','') p) 2) (\<lambda>c.
              bind_err (float_at (py_split (CHR '','') p) 3) (\<lambda>d. Inr (a, b, c, d))))) = Inr v"
proof -
  note n = exactly_fields_numeric [OF assms]
  obtain a where a: "float_at (py_split (CHR '','') p) 0 = Inr a"
    using numeric_fields_float_at [OF n, of 0] by auto
  obtain b where b: "float_at (py_split (CHR '','') p) 1 = Inr b"
    using numeric_fields_float_at [OF n, of 1] by auto
  obtain c where c: "float_at (py_split (CHR '','') p) 2 = Inr c"
    using numeric_fields_float_at [OF n, of 2] by auto
  obtain d where d: "float_at (py_split (CHR '','') p) 3 = Inr d"
    using numeric_fields_float_at [OF n, of 3] by auto
  from a b c d show ?thesis by (simp add: bind_err_def)
qed

lemma one_field_numeric: "exactly_fields 1 p \<Longrightarrow> is_numeric p"
proof -
  assume a: "exactly_fields 1 p"
  then obtain t where t: "py_split (CHR '','') p = [t]" and n: "is_numeric t"
    by (cases "py_split (CHR '','') p") (auto simp: exactly_fields_def Let_def)
  have "CHR '','' \<notin> set p"
  proof
    assume "CHR '','' \<in> set p"
    then obtain u v where "p = u @ CHR '','' # v" and "CHR '','' \<notin> set u"
      by (auto dest: split_list_first)
    then have "py_split (CHR '','') p = u # py_split (CHR '','') v"
      by (simp add: py_split_append_sep del: py_split.simps)
    with t have "py_split (CHR '','') v = []" by simp
    then show False by (cases v) (auto split: if_splits list.splits)
  qed
  then have "py_split (CHR '','') p = [p]" by (rule py_split_no_sep)
  with t n show ?thesis by simp
qed

lemma invoke_success:
  assumes "checks_response c" and "pending w = r # rs" and "ok r"
    and "spec_well_formed B c (message r)" and "single_spaced_records c (message r)"
    and "file_ready c w"
  shows "\<exists>v. fst (invoke B c w) = Inr v"
proof (cases c)
  case (AlignDie threshold)
  with assms three_floats_ok [of "message r"] show ?thesis
    by (auto simp: align_die_def returning_def exchange_pending check_resp_def bind_err_def)
next
  case CameraSynchronize
  with assms three_floats_ok [of "message r"] show ?thesis
    by (auto simp: camera_synchronize_def returning_def exchange_pending check_resp_def bind_err_def)
next
  case (PtpaFindPads row column)
  with assms three_floats_ok [of "message r"] show ?thesis
    by (auto simp: ptpa_find_pads_def returning_def exchange_pending check_resp_def bind_err_def)
next
  case (PtpaFindTips m)
  with assms three_floats_ok [of "message r"] show ?thesis
    by (auto simp: ptpa_find_tips_def returning_def exchange_pending check_resp_def bind_err_def)
next
  case (MatchTips m)
  with assms two_floats_ok [of "message r"] show ?thesis
    by (auto simp: match_tips_def returning_def exchange_pending check_resp_def bind_err_def)
next
  case FindThermalDieSize
  with assms two_floats_ok [of "message r"] show ?thesis
    by (auto simp: find_thermal_die_size_def returning_def exchange_pending check_resp_def bind_err_def)
next
  case (FindPattern name threshold idx reference)
  with assms four_floats_ok [of "message r"] show ?thesis
    by (auto simp: find_pattern_def returning_def exchange_pending check_resp_def bind_err_def)
next
  case GetLensZoomLevel
  with assms have "is_numeric (message r)" by (simp add: one_field_numeric)
  with GetLensZoomLevel assms is_numeric_Inr [of "message r"] show ?thesis
    by (auto simp: get_lens_zoom_level_def returning_def exchange_pending check_resp_def bind_err_def)
next
  case (DetectProbetips camera detector coords)
  with assms have "list_all spec_tip_record (py_split (CHR '','') (message r))"
    and "list_all single_spaced (py_split (CHR '','') (message r))"
    by simp_all
  then obtain out where "tips_loop (py_split (CHR '','') (message r)) (Finite 0) [] = Inr out"
    using tips_loop_ok by blast
  with DetectProbetips assms show ?thesis
    by (simp add: detect_probetips_def returning_def exchange_pending check_resp_def bind_err_def
          del: py_split.simps tips_loop.simps)
next
  case (SnapImage path what location)
  show ?thesis
  proof (cases "member_name location = ''Local''")
    case True
    with SnapImage assms obtain data where "b64decode B (message r) = Inr data"
      by (cases "b64decode B (message r)") auto
    with True SnapImage assms show ?thesis
      by (simp add: snap_image_def returning_def exchange_pending check_resp_def bind_err_def
            write_file_def)
  next
    case False
    with SnapImage assms show ?thesis
      by (simp add: snap_image_def returning_def exchange_pending check_resp_def bind_err_def)
  qed
qed (use assms in \<open>simp_all add: method_defs returning_def exchange_pending read_line_def send_def
       check_resp_def bind_err_def\<close>)

text \<open>
  Claim C9, as stated, says that a checked method never raises on a success response
  with a well-formed payload. A local snapshot whose file cannot be opened raises
  \<^verbatim>\<open>OSError\<close> on such a response; and a tip record whose columns are separated by two
  spaces, or by a tab, raises \<^verbatim>\<open>ValueError\<close>, as \<^verbatim>\<open>detect_probetips\<close> splits a record
  at every single space and only there.
\<close>

theorem checked_methods_raise_on_well_formed:
  "checks_response (SnapImage ''tips.jpg'' (mk_member ''CameraRaw'' ''raw'') (mk_member ''Local'' ''local'')) \<and>
   ok (success ''aGk='') \<and>
   spec_well_formed sample_builtins
     (SnapImage ''tips.jpg'' (mk_member ''CameraRaw'' ''raw'') (mk_member ''Local'' ''local''))
     (message (success ''aGk='')) \<and>
   fst (invoke sample_builtins
          (SnapImage ''tips.jpg'' (mk_member ''CameraRaw'' ''raw'') (mk_member ''Local'' ''local''))
          (world_of [success ''aGk=''] (\<lambda>_. False))) = Inl OSError \<and>
   checks_response (DetectProbetips (mk_member ''Scope'' ''scope'')
     (mk_member ''ProbeDetector'' ''probedetector'') (mk_member ''Roi'' ''roi'')) \<and>
   spec_well_formed sample_builtins
     (DetectProbetips (mk_member ''Scope'' ''scope'')
        (mk_member ''ProbeDetector'' ''probedetector'') (mk_member ''Roi'' ''roi''))
     (message (success ''10  20 5 5 0.9'')) \<and>
   fst (invoke sample_builtins
          (DetectProbetips (mk_member ''Scope'' ''scope'')
             (mk_member ''ProbeDetector'' ''probedetector'') (mk_member ''Roi'' ''roi''))
          (world_of [success ''10  20 5 5 0.9''] (\<lambda>_. True))) = Inl ValueError \<and>
   spec_well_formed sample_builtins
     (DetectProbetips (mk_member ''Scope'' ''scope'')
        (mk_member ''ProbeDetector'' ''probedetector'') (mk_member ''Roi'' ''roi''))
     (message (success [CHR ''1'', CHR 0x09, CHR ''2'', CHR 0x09, CHR ''3'', CHR 0x09, CHR ''4'',
                        CHR 0x09, CHR ''5''])) \<and>
   fst (invoke sample_builtins
          (DetectProbetips (mk_member ''Scope'' ''scope'')
             (mk_member ''ProbeDetector'' ''probedetector'') (mk_member ''Roi'' ''roi''))
          (world_of [success [CHR ''1'', CHR 0x09, CHR ''2'', CHR 0x09, CHR ''3'', CHR 0x09,
                              CHR ''4'', CHR 0x09, CHR ''5'']] (\<lambda>_. True))) = Inl ValueError"
  by code_simp

text \<open>
  Claim C9, amended. For every method that checks its response: on a failure response the
  call raises \<^verbatim>\<open>ProberException\<close> with the instrument's message; on a success response
  whose payload has the shape the spec gives for the method the call does not raise,
  provided that the columns of every tip record are separated by one space each and there
  is a record, and that the file of a local snapshot can be opened for writing. The empty
  payload of \<^verbatim>\<open>detect_probetips\<close>, which the spec reads as the empty list, is the
  subject of claim C2 and is left aside here.
\<close>

theorem checked_methods_outcome:
  assumes "checks_response c" and "pending w = r # rs"
  shows "(\<not> ok r \<longrightarrow> fst (invoke B c w) = Inl (ProberException (message r)))
       \<and> (ok r \<and> spec_well_formed B c (message r) \<and> single_spaced_records c (message r)
            \<and> file_ready c w
          \<longrightarrow> \<not> isl (fst (invoke B c w)))"
proof (intro conjI impI)
  assume "\<not> ok r"
  with assms show "fst (invoke B c w) = Inl (ProberException (message r))"
    by (rule invoke_failure)
next
  assume "ok r \<and> spec_well_formed B c (message r) \<and> single_spaced_records c (message r)
            \<and> file_ready c w"
  with assms obtain v where "fst (invoke B c w) = Inr v"
    using invoke_success by blast
  then show "\<not> isl (fst (invoke B c w))" by simp
qed

theorem checked_methods_outcome_witness:
  "checks_response (AlignDie (Finite (1 / 20))) \<and>
   fst (invoke sample_builtins (AlignDie (Finite (1 / 20)))
          (world_of [failure ''alignment failed''] (\<lambda>_. True)))
     = Inl (ProberException ''alignment failed'') \<and>
   spec_well_formed sample_builtins (AlignDie (Finite (1 / 20))) ''1.0,2.0,3.0'' \<and>
   \<not> isl (fst (invoke sample_builtins (AlignDie (Finite (1 / 20)))
          (world_of [success ''1.0,2.0,3.0''] (\<lambda>_. True)))) \<and>
   spec_well_formed sample_builtins
     (SnapImage ''tips.jpg'' (mk_member ''CameraRaw'' ''raw'') (mk_member ''Local'' ''local'')) ''aGk='' \<and>
   \<not> isl (fst (invoke sample_builtins
          (SnapImage ''tips.jpg'' (mk_member ''CameraRaw'' ''raw'') (mk_member ''Local'' ''local''))
          (world_of [success ''aGk=''] (\<lambda>_. True)))) \<and>
   spec_well_formed sample_builtins
     (DetectProbetips (mk_member ''Scope'' ''scope'')
        (mk_member ''ProbeDetector'' ''probedetector'') (mk_member ''Roi'' ''roi''))
     ''10 20 5 5 0.9, 11 21 5 5 0.8 2'' \<and>
   single_spaced_records
     (DetectProbetips (mk_member ''Scope'' ''scope'')
        (mk_member ''ProbeDetector'' ''probedetector'') (mk_member ''Roi'' ''roi''))
     ''10 20 5 5 0.9, 11 21 5 5 0.8 2'' \<and>
   \<not> isl (fst (invoke sample_builtins
          (DetectProbetips (mk_member ''Scope'' ''scope'')
             (mk_member ''ProbeDetector'' ''probedetector'') (mk_member ''Roi'' ''roi''))
          (world_of [success ''10 20 5 5 0.9, 11 21 5 5 0.8 2''] (\<lambda>_. True))))"
proof -
  let ?snap = "SnapImage ''tips.jpg'' (mk_member ''CameraRaw'' ''raw'') (mk_member ''Local'' ''local'')"
  let ?tips = "DetectProbetips (mk_member ''Scope'' ''scope'')
        (mk_member ''ProbeDetector'' ''probedetector'') (mk_member ''Roi'' ''roi'')"
  have p: "pending (world_of [r] (\<lambda>_. True)) = r # []" for r
    by (simp add: world_of_def)
  have c1: "checks_response (AlignDie (Finite (1 / 20)))" by simp
  have c2: "checks_response ?snap" by simp
  have c3: "checks_response ?tips" by simp
  have w1: "spec_well_formed sample_builtins (AlignDie (Finite (1 / 20))) ''1.0,2.0,3.0''"
    by code_simp
  have w2: "spec_well_formed sample_builtins ?snap ''aGk=''"
    by code_simp
  have w3: "spec_well_formed sample_builtins ?tips ''10 20 5 5 0.9, 11 21 5 5 0.8 2''"
    by code_simp
  have s3: "single_spaced_records ?tips ''10 20 5 5 0.9, 11 21 5 5 0.8 2''"
    by code_simp
  have s1: "single_spaced_records (AlignDie (Finite (1 / 20))) q" for q by simp
  have s2: "single_spaced_records ?snap q" for q by simp
  have f1: "file_ready (AlignDie (Finite (1 / 20))) v" for v by simp
  have f2: "file_ready ?snap (world_of [success ''aGk=''] (\<lambda>_. True))"
    by (simp add: world_of_def)
  have f3: "file_ready ?tips v" for v by simp
  show ?thesis
    using checked_methods_outcome [OF c1 p [of "failure ''alignment failed''"],
          where B = sample_builtins]
      checked_methods_outcome [OF c1 p [of "success ''1.0,2.0,3.0''"], where B = sample_builtins]
      checked_methods_outcome [OF c2 p [of "success ''aGk=''"], where B = sample_builtins]
      checked_methods_outcome [OF c3 p [of "success ''10 20 5 5 0.9, 11 21 5 5 0.8 2''"],
          where B = sample_builtins]
      w1 w2 w3 s1 s2 s3 f1 f2 f3
    by (simp add: success_def failure_def
          del: spec_well_formed.simps single_spaced_records.simps file_ready.simps
            invoke.simps)
qed

text \<open>
  The shape of the spec is sufficient and not necessary: \<^verbatim>\<open>align_die\<close> also returns on
  a payload of four fields, which is not the 3-field response of the spec.
\<close>

lemma align_die_four_fields:
  "\<not> spec_well_formed sample_builtins (AlignDie (Finite (1 / 20))) ''1,2,3,4'' \<and>
   fst (invoke sample_builtins (AlignDie (Finite (1 / 20)))
          (world_of [success ''1,2,3,4''] (\<lambda>_. True)))
     = Inr (RTuple [Finite 1, Finite 2, Finite 3])"
  by code_simp

subsection \<open>Further properties\<close>

text \<open>
  One exchange per call: a method that checks its response appends to the log of the
  channel one line sent and then one line read, the first line the instrument delivers,
  and leaves the lines after it on the channel.
\<close>

theorem checked_methods_one_exchange:
  assumes "checks_response c" and "pending w = r # rs"
  shows "\<exists>l. trace (snd (invoke B c w)) = trace w @ [Sent l, Received r] \<and>
             pending (snd (invoke B c w)) = rs"
  using assms
  by (cases c)
     (auto simp: method_defs returning_def exchange_pending read_line_def send_def write_file_def
           split: sum.splits)

theorem checked_methods_one_exchange_witness:
  "trace (snd (invoke sample_builtins (AlignDie (Finite (1 / 20)))
          (world_of [success ''1.0,2.0,3.0'', success ''next''] (\<lambda>_. True))))
     = [Sent ''vis:align_die 0.05'', Received (success ''1.0,2.0,3.0'')] \<and>
   pending (snd (invoke sample_builtins (AlignDie (Finite (1 / 20)))
          (world_of [success ''1.0,2.0,3.0'', success ''next''] (\<lambda>_. True)))) = [success ''next'']"
proof -
  have p: "pending (world_of [success ''1.0,2.0,3.0'', success ''next''] (\<lambda>_. True))
             = success ''1.0,2.0,3.0'' # [success ''next'']"
    by (simp add: world_of_def)
  have c1: "checks_response (AlignDie (Finite (1 / 20)))" by simp
  have s: "hd (trace (snd (invoke sample_builtins (AlignDie (Finite (1 / 20)))
          (world_of [success ''1.0,2.0,3.0'', success ''next''] (\<lambda>_. True))))) = Sent ''vis:align_die 0.05''"
    by code_simp
  show ?thesis
    using checked_methods_one_exchange [OF c1 p, where B = sample_builtins] s
    by (auto simp: world_of_def simp del: invoke.simps)
qed

text \<open>
  A response of one tip record: five columns give the class id 0, a sixth column gives
  the class id.
\<close>

theorem detect_probetips_single_record:
  "fst (detect_probetips camera detector coords
          (w\<lparr>pending := \<lparr>ok = True, message = ''10 20 5 5 0.9''\<rparr> # rs\<rparr>)) =
     Inr [[Finite 10, Finite 20, Finite 5, Finite 5, Finite (9 / 10), Finite 0]] \<and>
   fst (detect_probetips camera detector coords
          (w\<lparr>pending := \<lparr>ok = True, message = ''10 20 5 5 0.9 2''\<rparr> # rs\<rparr>)) =
     Inr [[Finite 10, Finite 20, Finite 5, Finite 5, Finite (9 / 10), Finite 2]]"
proof -
  have a: "tips_loop (py_split (CHR '','') ''10 20 5 5 0.9'') (Finite 0) [] =
     Inr [[Finite 10, Finite 20, Finite 5, Finite 5, Finite (9 / 10), Finite 0]]"
    by code_simp
  have b: "tips_loop (py_split (CHR '','') ''10 20 5 5 0.9 2'') (Finite 0) [] =
     Inr [[Finite 10, Finite 20, Finite 5, Finite 5, Finite (9 / 10), Finite 2]]"
    by code_simp
  show ?thesis
    by (simp add: detect_probetips_def exchange_pending check_resp_def bind_err_def a b
           del: py_split.simps tips_loop.simps)
qed

end
